theory Spec2Isabelle
  imports Complex_Main "HOL-Library.Word"
begin

unbundle bit_operations_syntax

section \<open>Values, errors and the Buffer primitives\<close>

text \<open>
  The model follows \<^verbatim>\<open>src/Shazam.js\<close>. A JavaScript exception is a value of
  \<open>error\<close>; a function that can throw returns \<open>error + 'a\<close> (\<open>Inl\<close> the exception).
  \<open>Error msg\<close> is \<^verbatim>\<open>new Error(msg)\<close>; the other three are the built-in exceptions
  raised by the runtime: \<open>RangeError\<close> by a Buffer access or write out of range,
  \<open>TypeError\<close> by a property read on \<^verbatim>\<open>undefined\<close>, \<open>ReferenceError\<close> by an unbound
  identifier.
\<close>

datatype error = Error string | RangeError | TypeError | ReferenceError

type_synonym byte = "8 word"

text \<open>\<^verbatim>\<open>buf.readUInt8(o)\<close>, \<^verbatim>\<open>buf.readUInt16LE(o)\<close>, \<^verbatim>\<open>buf.readUInt32LE(o)\<close>:
  little-endian reads that throw when the bytes are not all inside the buffer.\<close>

definition readUInt8 :: "byte list \<Rightarrow> nat \<Rightarrow> error + nat" where
  "readUInt8 buf off =
     (if off + 1 \<le> length buf then Inr (unat (buf ! off)) else Inl RangeError)"

definition readUInt16LE :: "byte list \<Rightarrow> nat \<Rightarrow> error + nat" where
  "readUInt16LE buf off =
     (if off + 2 \<le> length buf
      then Inr (unat (buf ! off) + 256 * unat (buf ! (off + 1)))
      else Inl RangeError)"

definition readUInt32LE :: "byte list \<Rightarrow> nat \<Rightarrow> error + nat" where
  "readUInt32LE buf off =
     (if off + 4 \<le> length buf
      then Inr (unat (buf ! off) + 256 * unat (buf ! (off + 1))
                + 65536 * unat (buf ! (off + 2)) + 16777216 * unat (buf ! (off + 3)))
      else Inl RangeError)"

text \<open>The four bytes \<^verbatim>\<open>writeUInt32LE\<close> stores for a value in range, and the write
  itself: \<^verbatim>\<open>header.writeUInt32LE(v, o)\<close> throws when \<open>v\<close> is below 0 or above
  \<open>2^32 - 1\<close> and stores the truncated value otherwise. The header writes of the
  source are all inside the 48-byte header.\<close>

definition le32 :: "nat \<Rightarrow> byte list" where
  "le32 v = [of_nat v, of_nat (v div 256), of_nat (v div 65536), of_nat (v div 16777216)]"

definition le16 :: "nat \<Rightarrow> byte list" where
  "le16 v = [of_nat v, of_nat (v div 256)]"

definition splice_bytes :: "byte list \<Rightarrow> nat \<Rightarrow> byte list \<Rightarrow> byte list" where
  "splice_bytes buf off bs = take off buf @ bs @ drop (off + length bs) buf"

definition writeUInt32LE :: "byte list \<Rightarrow> real \<Rightarrow> nat \<Rightarrow> error + byte list" where
  "writeUInt32LE buf v off =
     (if v > 4294967295 \<or> v < 0 \<or> length buf < off + 4 then Inl RangeError
      else Inr (splice_bytes buf off (le32 (nat \<lfloor>v\<rfloor>))))"

text \<open>JavaScript's \<^verbatim>\<open>%\<close> takes the sign of the dividend: \<^verbatim>\<open>-5 % 4\<close> is \<open>-1\<close>.\<close>

definition js_rem :: "int \<Rightarrow> int \<Rightarrow> int" where
  "js_rem a b = (if a < 0 then - ((- a) mod \<bar>b\<bar>) else a mod \<bar>b\<bar>)"

section \<open>The checksum\<close>

text \<open>
  Modelled from the spec: \<^verbatim>\<open>createHash('crc32')\<close> belongs to Node's \<^verbatim>\<open>crypto\<close>
  module, which is not part of the repository. The specification names the checksum:
  the standard CRC-32 (IEEE 802.3 polynomial) over \<^verbatim>\<open>bytes[8:]\<close>. \<open>crc32\<close> is that
  function, bit by bit with the reflected polynomial \<open>0xEDB88320\<close>, and
  \<open>digest_hex\<close> is \<^verbatim>\<open>.digest('hex')\<close> of the four-byte digest: eight lower-case hex
  digits, most significant first.
\<close>

definition crc32_step :: "32 word \<Rightarrow> 32 word" where
  "crc32_step c = (if bit c 0 then drop_bit 1 c XOR 0xEDB88320 else drop_bit 1 c)"

definition crc32_byte :: "32 word \<Rightarrow> byte \<Rightarrow> 32 word" where
  "crc32_byte c b = (crc32_step ^^ 8) (c XOR ucast b)"

definition crc32 :: "byte list \<Rightarrow> 32 word" where
  "crc32 bs = NOT (foldl crc32_byte (- 1) bs)"

definition hex_digit :: "nat \<Rightarrow> char" where
  "hex_digit d = (''0123456789abcdef'') ! d"

definition digest_hex :: "32 word \<Rightarrow> string" where
  "digest_hex w = map (\<lambda>k. hex_digit ((unat w div 16 ^ k) mod 16)) [7, 6, 5, 4, 3, 2, 1, 0]"

text \<open>\<^verbatim>\<open>n.toString(16)\<close> for a non-negative integer: no leading zeros.\<close>

fun toString16 :: "nat \<Rightarrow> string" where
  "toString16 n = (if n < 16 then [hex_digit n] else toString16 (n div 16) @ [hex_digit (n mod 16)])"

declare toString16.simps [simp del]

section \<open>Signatures\<close>

text \<open>\<^verbatim>\<open>class FrequencyPeak\<close> and \<^verbatim>\<open>class DecodedMessage\<close>. The band map is a
  JavaScript object: its keys are property names, and \<^verbatim>\<open>Object.keys\<close> lists the
  array-index names (\<open>PIndex n\<close> is the name \<^verbatim>\<open>String(n)\<close>) in ascending order first,
  then the other names in insertion order. The association list is kept in that
  order.\<close>

record FrequencyPeak =
  fftPassNumber :: int
  peakMagnitude :: int
  correctedPeakFrequencyBin :: int
  peakSampleRateHz :: int

datatype pkey = PIndex nat | PName string

record DecodedMessage =
  sampleRateHz :: int
  numberSamples :: int
  frequencyBandToSoundPeaks :: "(pkey \<times> FrequencyPeak list) list"

fun obj_get :: "(pkey \<times> 'v) list \<Rightarrow> pkey \<Rightarrow> 'v option" where
  "obj_get [] k = None"
| "obj_get ((k', v) # m) k = (if k' = k then Some v else obj_get m k)"

fun obj_insert_index :: "(pkey \<times> 'v) list \<Rightarrow> nat \<Rightarrow> 'v \<Rightarrow> (pkey \<times> 'v) list" where
  "obj_insert_index [] n v = [(PIndex n, v)]"
| "obj_insert_index ((PIndex n', v') # m) n v =
     (if n' < n then (PIndex n', v') # obj_insert_index m n v
      else (PIndex n, v) # (PIndex n', v') # m)"
| "obj_insert_index ((PName s, v') # m) n v = (PIndex n, v) # (PName s, v') # m"

definition obj_set :: "(pkey \<times> 'v) list \<Rightarrow> pkey \<Rightarrow> 'v \<Rightarrow> (pkey \<times> 'v) list" where
  "obj_set m k v =
     (if obj_get m k \<noteq> None then map (\<lambda>(k', v'). if k' = k then (k', v) else (k', v')) m
      else case k of PIndex n \<Rightarrow> obj_insert_index m n v | PName s \<Rightarrow> m @ [(k, v)])"

text \<open>\<^verbatim>\<open>const SampleRate\<close> and \<^verbatim>\<open>const FrequencyBand\<close>. \<open>SampleRate_find\<close> is line 77:
  \<^verbatim>\<open>Object.keys(SampleRate).find(key => SampleRate[key] === id)\<close> followed by
  \<^verbatim>\<open>.substring(1)\<close> and \<^verbatim>\<open>parseInt\<close>; \<^verbatim>\<open>find\<close> yields \<^verbatim>\<open>undefined\<close> for any other id,
  and \<^verbatim>\<open>undefined.substring\<close> throws. \<open>FrequencyBand_get\<close> is the property read
  \<^verbatim>\<open>FrequencyBand[key]\<close>: the object has the five names below and no index names.\<close>

definition SampleRate_find :: "int \<Rightarrow> error + int" where
  "SampleRate_find i =
     (if i = 1 then Inr 8000 else if i = 2 then Inr 11025 else if i = 3 then Inr 16000
      else if i = 4 then Inr 32000 else if i = 5 then Inr 44100 else if i = 6 then Inr 48000
      else Inl TypeError)"

definition FrequencyBand_get :: "pkey \<Rightarrow> int option" where
  "FrequencyBand_get k =
     (if k = PName ''_0_250'' then Some (- 1)
      else if k = PName ''_250_520'' then Some 0
      else if k = PName ''_520_1450'' then Some 1
      else if k = PName ''_1450_3500'' then Some 2
      else if k = PName ''_3500_5500'' then Some 3
      else None)"

text \<open>A number used as a property name: \<^verbatim>\<open>obj[n]\<close> reads the name \<^verbatim>\<open>String(n)\<close>,
  an array index when \<open>n\<close> is a non-negative integer. A value used as a property name
  on assignment: \<^verbatim>\<open>obj[undefined] = v\<close> writes the name \<^verbatim>\<open>"undefined"\<close>.\<close>

fun decimal :: "nat \<Rightarrow> string" where
  "decimal n = (if n < 10 then [(''0123456789'') ! n]
                else decimal (n div 10) @ [(''0123456789'') ! (n mod 10)])"

declare decimal.simps [simp del]

definition num_key :: "int \<Rightarrow> pkey" where
  "num_key n = (if 0 \<le> n then PIndex (nat n) else PName (CHR ''-'' # decimal (nat (- n))))"

definition value_key :: "int option \<Rightarrow> pkey" where
  "value_key v = (case v of None \<Rightarrow> PName ''undefined'' | Some n \<Rightarrow> num_key n)"

section \<open>\<^verbatim>\<open>DecodedMessage.decodeFromBinary\<close>\<close>

text \<open>The inner \<^verbatim>\<open>for\<close> loop of lines 87-92: one peak per value of \<open>i\<close>, read at
  \<open>offset + i\<close> (the source advances by one byte per peak).\<close>

fun read_peaks :: "byte list \<Rightarrow> nat \<Rightarrow> int \<Rightarrow> nat list \<Rightarrow> error + FrequencyPeak list" where
  "read_peaks buf offset rate [] = Inr []"
| "read_peaks buf offset rate (i # is) =
     (case readUInt8 buf (offset + i) of Inl e \<Rightarrow> Inl e | Inr p \<Rightarrow>
      case readUInt16LE buf (offset + i + 1) of Inl e \<Rightarrow> Inl e | Inr m \<Rightarrow>
      case readUInt16LE buf (offset + i + 3) of Inl e \<Rightarrow> Inl e | Inr c \<Rightarrow>
      case read_peaks buf offset rate is of Inl e \<Rightarrow> Inl e | Inr ps \<Rightarrow>
        Inr (\<lparr>fftPassNumber = int p, peakMagnitude = int m,
              correctedPeakFrequencyBin = int c, peakSampleRateHz = rate\<rparr> # ps))"

text \<open>The \<^verbatim>\<open>while (offset < data.length)\<close> loop of lines 81-96. The key written is
  \<^verbatim>\<open>FrequencyBand[frequencyBandId - 0x60030040]\<close>: a property read of
  \<^verbatim>\<open>FrequencyBand\<close> at an index name, which the object does not have, so the key is the
  name \<^verbatim>\<open>"undefined"\<close> for every record. The offset then advances by
  \<^verbatim>\<open>size + (-size % 4)\<close>.\<close>

function decode_bands ::
  "byte list \<Rightarrow> int \<Rightarrow> nat \<Rightarrow> (pkey \<times> FrequencyPeak list) list
     \<Rightarrow> error + (pkey \<times> FrequencyPeak list) list" where
  "decode_bands buf rate offset bands =
     (if offset < length buf then
        (case readUInt32LE buf offset of Inl e \<Rightarrow> Inl e | Inr frequencyBandId \<Rightarrow>
         case readUInt32LE buf (offset + 4) of Inl e \<Rightarrow> Inl e | Inr frequencyPeaksSize \<Rightarrow>
         case read_peaks buf (offset + 8) rate [0..<frequencyPeaksSize] of Inl e \<Rightarrow> Inl e
         | Inr frequencyPeaks \<Rightarrow>
             decode_bands buf rate
               (nat (int (offset + 8) + int frequencyPeaksSize
                     + js_rem (- int frequencyPeaksSize) 4))
               (obj_set bands
                  (value_key (FrequencyBand_get (num_key (int frequencyBandId - 0x60030040))))
                  frequencyPeaks))
      else Inr bands)"
  by pat_completeness auto
termination
proof (relation "measure (\<lambda>(buf, rate, offset, bands). length buf - offset)", goal_cases)
  case 1
  show ?case by simp
next
  case (2 buf rate offset bands frequencyBandId frequencyPeaksSize frequencyPeaks)
  have "- int frequencyPeaksSize \<le> js_rem (- int frequencyPeaksSize) 4"
    by (cases "frequencyPeaksSize = 0") (simp_all add: js_rem_def zmod_le_nonneg_dividend)
  then have "offset < nat (int (offset + 8) + int frequencyPeaksSize
                           + js_rem (- int frequencyPeaksSize) 4)"
    by linarith
  with 2 show ?case by simp
qed

declare decode_bands.simps [simp del]

text \<open>\<^verbatim>\<open>x >> k\<close> on a number that holds an unsigned 32-bit value: the value is
  read as a signed 32-bit integer and shifted arithmetically.\<close>

definition js_sar :: "nat \<Rightarrow> nat \<Rightarrow> int" where
  "js_sar v k =
     (let w = int v mod 2 ^ 32; s = (if w \<ge> 2 ^ 31 then w - 2 ^ 32 else w) in s div 2 ^ k)"

text \<open>\<^verbatim>\<open>Math.round\<close>: the nearest integer, halves towards plus infinity.\<close>

definition Math_round :: "real \<Rightarrow> int" where
  "Math_round x = \<lfloor>x + 1 / 2\<rfloor>"

text \<open>Lines 61-99. The five header reads come first and throw on a buffer shorter than
  32 bytes; the four checks of line 72 raise the same \<^verbatim>\<open>Error\<close>.\<close>

definition decodeFromBinary :: "byte list \<Rightarrow> error + DecodedMessage" where
  "decodeFromBinary data =
     (let buf = data; checksummableData = drop 8 buf; header = take 48 buf in
      case readUInt32LE header 0 of Inl e \<Rightarrow> Inl e | Inr magic1 \<Rightarrow>
      case readUInt32LE header 4 of Inl e \<Rightarrow> Inl e | Inr crc32_field \<Rightarrow>
      case readUInt32LE header 8 of Inl e \<Rightarrow> Inl e | Inr sizeMinusHeader \<Rightarrow>
      case readUInt32LE header 12 of Inl e \<Rightarrow> Inl e | Inr magic2 \<Rightarrow>
      case readUInt32LE header 28 of Inl e \<Rightarrow> Inl e | Inr shiftedSampleRateId \<Rightarrow>
      if magic1 \<noteq> 0xcafe2580 \<or> int sizeMinusHeader \<noteq> int (length data) - 48
         \<or> digest_hex (crc32 checksummableData) \<noteq> toString16 crc32_field
         \<or> magic2 \<noteq> 0x94119c00
      then Inl (Error ''Invalid signature header'')
      else
        case SampleRate_find (js_sar shiftedSampleRateId 27) of Inl e \<Rightarrow> Inl e | Inr rate \<Rightarrow>
        case readUInt32LE header 44 of Inl e \<Rightarrow> Inl e | Inr biased \<Rightarrow>
        case decode_bands buf rate 48 [] of Inl e \<Rightarrow> Inl e | Inr bands \<Rightarrow>
          Inr \<lparr>sampleRateHz = rate,
               numberSamples = Math_round (real biased - real_of_int rate * 0.24),
               frequencyBandToSoundPeaks = bands\<rparr>)"

section \<open>\<^verbatim>\<open>DecodedMessage.encodeToBinary\<close>\<close>

text \<open>Lines 138-144: five bytes per peak. \<^verbatim>\<open>writeUInt8\<close> throws on a pass number
  outside \<open>0..255\<close>. The two 16-bit writes read \<^verbatim>\<open>peak.peak_magnitude\<close> and
  \<^verbatim>\<open>peak.corrected_peak_frequency_bin\<close>, properties a \<^verbatim>\<open>FrequencyPeak\<close> does not have:
  the value is \<^verbatim>\<open>undefined\<close>, which passes the range check as \<^verbatim>\<open>NaN\<close> and is stored
  as zero bytes.\<close>

definition encode_peak :: "FrequencyPeak \<Rightarrow> error + byte list" where
  "encode_peak peak =
     (if fftPassNumber peak > 255 \<or> fftPassNumber peak < 0 then Inl RangeError
      else Inr ([of_int (fftPassNumber peak)] @ le16 0 @ le16 0))"

fun encode_peaks :: "FrequencyPeak list \<Rightarrow> error + byte list" where
  "encode_peaks [] = Inr []"
| "encode_peaks (p # ps) =
     (case encode_peak p of Inl e \<Rightarrow> Inl e | Inr b \<Rightarrow>
      case encode_peaks ps of Inl e \<Rightarrow> Inl e | Inr bs \<Rightarrow> Inr (b @ bs))"

text \<open>\<^verbatim>\<open>Buffer.alloc(n)\<close> throws on a negative size. Line 145: \<^verbatim>\<open>Buffer.from([x])\<close> is
  the single byte \<open>x mod 256\<close>, so the band tag and the payload length take one byte
  each; \<^verbatim>\<open>0x60030040 + undefined\<close> is \<^verbatim>\<open>NaN\<close>, and \<^verbatim>\<open>NaN >> 0\<close> is 0.\<close>

definition Buffer_alloc :: "int \<Rightarrow> error + byte list" where
  "Buffer_alloc n = (if n < 0 then Inl RangeError else Inr (replicate (nat n) 0))"

definition encode_band :: "pkey \<times> FrequencyPeak list \<Rightarrow> error + byte list" where
  "encode_band kv =
     (case encode_peaks (snd kv) of Inl e \<Rightarrow> Inl e | Inr peaksBuf \<Rightarrow>
      case Buffer_alloc (js_rem (- int (length peaksBuf)) 4) of Inl e \<Rightarrow> Inl e | Inr pad \<Rightarrow>
        Inr ([of_int (case FrequencyBand_get (fst kv) of None \<Rightarrow> 0 | Some b \<Rightarrow> 0x60030040 + b)]
             @ [of_nat (length peaksBuf)] @ peaksBuf @ pad))"

fun encode_bands :: "(pkey \<times> FrequencyPeak list) list \<Rightarrow> error + byte list list" where
  "encode_bands [] = Inr []"
| "encode_bands (kv # m) =
     (case encode_band kv of Inl e \<Rightarrow> Inl e | Inr b \<Rightarrow>
      case encode_bands m of Inl e \<Rightarrow> Inl e | Inr bs \<Rightarrow> Inr (b # bs))"

text \<open>\<^verbatim>\<open>x << 27\<close>: a signed 32-bit result, negative when bit 31 is set.\<close>

definition js_shl27 :: "int \<Rightarrow> int" where
  "js_shl27 x = (let w = (x * 2 ^ 27) mod 2 ^ 32 in if w \<ge> 2 ^ 31 then w - 2 ^ 32 else w)"

text \<open>Lines 128-156. The returned buffer is the \<^verbatim>\<open>Buffer.concat\<close> of line 151, a copy
  made before the checksum is written into \<^verbatim>\<open>header\<close> at line 153: the write of
  line 153 changes \<^verbatim>\<open>header\<close> only, and bytes 4..7 of the result stay zero.\<close>

definition encodeToBinary :: "DecodedMessage \<Rightarrow> error + byte list" where
  "encodeToBinary self =
     (case writeUInt32LE (replicate 48 0) 0xcafe2580 0 of Inl e \<Rightarrow> Inl e | Inr h1 \<Rightarrow>
      case writeUInt32LE h1 0x94119c00 12 of Inl e \<Rightarrow> Inl e | Inr h2 \<Rightarrow>
      case writeUInt32LE h2 (real_of_int (js_shl27 (sampleRateHz self))) 28 of Inl e \<Rightarrow> Inl e
      | Inr h3 \<Rightarrow>
      case writeUInt32LE h3 (15 * 2 ^ 19 + 0x40000) 44 of Inl e \<Rightarrow> Inl e | Inr h4 \<Rightarrow>
      case writeUInt32LE h4
             (real_of_int (numberSamples self) + real_of_int (sampleRateHz self) * 0.24) 44
      of Inl e \<Rightarrow> Inl e | Inr h5 \<Rightarrow>
      case encode_bands (frequencyBandToSoundPeaks self) of Inl e \<Rightarrow> Inl e | Inr contents \<Rightarrow>
      let totalSize = length (concat contents) + 8 in
      case writeUInt32LE h5 (real totalSize) 8 of Inl e \<Rightarrow> Inl e | Inr header \<Rightarrow>
      let buf = header @ concat contents;
          crc = crc32 (drop 8 buf) in
      case writeUInt32LE header (real (unat crc)) 4 of Inl e \<Rightarrow> Inl e | Inr header' \<Rightarrow>
        Inr buf)"

section \<open>Numbers and arrays of the signal path\<close>

text \<open>
  The spectra are arrays of JavaScript numbers. A cell is \<open>Some x\<close> for the number \<open>x\<close>
  and \<open>None\<close> for \<^verbatim>\<open>NaN\<close>, which is also what \<^verbatim>\<open>Math.max\<close> and the comparisons make
  of \<^verbatim>\<open>undefined\<close> (a read past the end of an array). The numbers are reals: the
  rounding of IEEE doubles is not modelled, and no theorem below depends on it.
  A comparison with \<^verbatim>\<open>NaN\<close> is false; \<^verbatim>\<open>Math.max\<close> and the arithmetic return \<^verbatim>\<open>NaN\<close>
  when an operand is \<^verbatim>\<open>NaN\<close>.
\<close>

type_synonym num = "real option"

definition Math_max :: "num \<Rightarrow> num \<Rightarrow> num" where
  "Math_max a b = (case a of None \<Rightarrow> None | Some x \<Rightarrow>
                   (case b of None \<Rightarrow> None | Some y \<Rightarrow> Some (max x y)))"

definition num_ge :: "num \<Rightarrow> num \<Rightarrow> bool" where
  "num_ge a b = (case a of None \<Rightarrow> False | Some x \<Rightarrow>
                 (case b of None \<Rightarrow> False | Some y \<Rightarrow> x \<ge> y))"

definition num_gt :: "num \<Rightarrow> num \<Rightarrow> bool" where
  "num_gt a b = (case a of None \<Rightarrow> False | Some x \<Rightarrow>
                 (case b of None \<Rightarrow> False | Some y \<Rightarrow> x > y))"

definition num_lt :: "num \<Rightarrow> num \<Rightarrow> bool" where
  "num_lt a b = num_gt b a"

definition num_le :: "num \<Rightarrow> num \<Rightarrow> bool" where
  "num_le a b = num_ge b a"

definition num_op :: "(real \<Rightarrow> real \<Rightarrow> real) \<Rightarrow> num \<Rightarrow> num \<Rightarrow> num" where
  "num_op f a b = (case a of None \<Rightarrow> None | Some x \<Rightarrow>
                   (case b of None \<Rightarrow> None | Some y \<Rightarrow> Some (f x y)))"

text \<open>\<^verbatim>\<open>a / b\<close>: the quotient by zero (an infinity or \<^verbatim>\<open>NaN\<close> in JavaScript) is only
  computed at line 395 and only used under the guard \<^verbatim>\<open>peakVariation1 > 0\<close> of line
  398; it is \<open>None\<close> here. \<^verbatim>\<open>Math.log\<close> is only applied to values of at least 1/64.\<close>

definition num_div :: "num \<Rightarrow> num \<Rightarrow> num" where
  "num_div a b = (if b = Some 0 then None else num_op (/) a b)"

definition Math_log :: "num \<Rightarrow> num" where
  "Math_log a = (case a of None \<Rightarrow> None | Some x \<Rightarrow> if x > 0 then Some (ln x) else None)"

text \<open>\<^verbatim>\<open>arr[i]\<close> and \<^verbatim>\<open>arr[i] = v\<close> on an array of numbers: a read past the end is
  \<^verbatim>\<open>undefined\<close>, a write past the end extends the array.\<close>

definition aget :: "num list \<Rightarrow> nat \<Rightarrow> num" where
  "aget xs i = (if i < length xs then xs ! i else None)"

definition aset :: "num list \<Rightarrow> nat \<Rightarrow> num \<Rightarrow> num list" where
  "aset xs i v = (if i < length xs then xs[i := v]
                  else xs @ replicate (i - length xs) None @ [v])"

text \<open>\<^verbatim>\<open>xs.slice(s, e)\<close>: a negative index counts from the end, and both ends are
  clamped to the array.\<close>

definition js_slice :: "'a list \<Rightarrow> int \<Rightarrow> int \<Rightarrow> 'a list" where
  "js_slice xs s e =
     (let n = int (length xs);
          k = (if s < 0 then max (n + s) 0 else min s n);
          f = (if e < 0 then max (n + e) 0 else min e n)
      in take (nat (f - k)) (drop (nat k) xs))"

section \<open>\<^verbatim>\<open>class RingBuffer\<close>\<close>

text \<open>A \<^verbatim>\<open>RingBuffer\<close> is an array with three more fields. \<open>ring_at r k\<close> is the element
  read \<^verbatim>\<open>r[k]\<close> for an integer \<open>k\<close>: \<^verbatim>\<open>undefined\<close> (\<open>None\<close>) when \<open>k\<close> is negative or past
  the end. \<^verbatim>\<open>append\<close> writes at \<^verbatim>\<open>position\<close>, which the constructor and \<^verbatim>\<open>append\<close> keep
  below \<^verbatim>\<open>bufferSize\<close>, the length of the array.\<close>

record 'a RingBuffer =
  items :: "'a list"
  position :: nat
  bufferSize :: nat
  numWritten :: nat

definition RingBuffer_new :: "nat \<Rightarrow> 'a \<Rightarrow> 'a RingBuffer" where
  "RingBuffer_new n defaultValue =
     \<lparr>items = replicate n defaultValue, position = 0, bufferSize = n, numWritten = 0\<rparr>"

definition append :: "'a RingBuffer \<Rightarrow> 'a \<Rightarrow> 'a RingBuffer" where
  "append r v = r\<lparr>items := (items r)[position r := v],
                   position := (position r + 1) mod bufferSize r,
                   numWritten := numWritten r + 1\<rparr>"

definition ring_at :: "'a RingBuffer \<Rightarrow> int \<Rightarrow> 'a option" where
  "ring_at r k = (if 0 \<le> k \<and> k < int (length (items r)) then Some (items r ! nat k) else None)"

section \<open>\<^verbatim>\<open>class SignatureGenerator\<close>\<close>

text \<open>
  The two rings of spectra hold references to arrays: \<^verbatim>\<open>new RingBuffer(256, new
  Array(1025).fill(0))\<close> puts the same array object in all 256 slots, and
  \<^verbatim>\<open>doPeakSpreading\<close> writes into the arrays it finds in the ring. The state therefore
  carries a store of arrays (\<open>store\<close>, from reference to contents, with \<open>fresh\<close> the
  next unused reference), and a ring slot is a reference.

  A method that throws leaves the object as it was at the throw: the methods return
  the state together with the result, \<open>Some e\<close> or \<open>Inl e\<close> for the exception \<open>e\<close>.

  Line 340 computes the power spectrum of the windowed excerpt with the \<^verbatim>\<open>fft-js\<close>
  library in floating point. It is a parameter of the model, \<open>spectrum\<close>, from the
  2048-sample excerpt to the array \<^verbatim>\<open>fftResults\<close>.
\<close>

record SignatureGenerator =
  inputPendingProcessing :: "int list"
  samplesProcessed :: int
  ringBufferOfSamples :: "int RingBuffer"
  fftOutputs :: "nat RingBuffer"
  spreadFftsOutput :: "nat RingBuffer"
  MAX_TIME_SECONDS :: num
  MAX_PEAKS :: int
  nextSignature :: DecodedMessage
  store :: "nat \<Rightarrow> num list"
  fresh :: nat

definition new_signature :: DecodedMessage where
  "new_signature = \<lparr>sampleRateHz = 16000, numberSamples = 0, frequencyBandToSoundPeaks = []\<rparr>"

text \<open>Lines 317-319 (and 282-284): three new rings; each spectrum ring is filled with
  one newly allocated array of 1025 zeros.\<close>

definition reset_rings :: "SignatureGenerator \<Rightarrow> SignatureGenerator" where
  "reset_rings st =
     st\<lparr>ringBufferOfSamples := RingBuffer_new 2048 0,
        fftOutputs := RingBuffer_new 256 (fresh st),
        spreadFftsOutput := RingBuffer_new 256 (fresh st + 1),
        store := (store st)(fresh st := replicate 1025 (Some 0),
                            fresh st + 1 := replicate 1025 (Some 0)),
        fresh := fresh st + 2\<rparr>"

definition SignatureGenerator_new :: SignatureGenerator where
  "SignatureGenerator_new =
     reset_rings
       \<lparr>inputPendingProcessing = [], samplesProcessed = 0,
        ringBufferOfSamples = RingBuffer_new 2048 0,
        fftOutputs = RingBuffer_new 256 0, spreadFftsOutput = RingBuffer_new 256 0,
        MAX_TIME_SECONDS = Some 3.1, MAX_PEAKS = 255,
        nextSignature = new_signature, store = (\<lambda>r. []), fresh = 0\<rparr>"

definition feedInput :: "int list \<Rightarrow> SignatureGenerator \<Rightarrow> SignatureGenerator" where
  "feedInput samples st =
     st\<lparr>inputPendingProcessing := inputPendingProcessing st @ samples\<rparr>"

text \<open>Lines 333-343, \<^verbatim>\<open>doFft\<close>: the samples replace \<^verbatim>\<open>samples.length\<close> cells of the
  sample ring at the cursor (\<^verbatim>\<open>splice\<close>), the excerpt is the ring read from the new
  cursor round, and its spectrum goes into a new array appended to \<^verbatim>\<open>fftOutputs\<close>.\<close>

definition doFft ::
  "(int list \<Rightarrow> num list) \<Rightarrow> int list \<Rightarrow> SignatureGenerator \<Rightarrow> SignatureGenerator" where
  "doFft spectrum samples st =
     (let rb = ringBufferOfSamples st;
          pos = position rb;
          rb' = rb\<lparr>items := take pos (items rb) @ samples @ drop (pos + length samples) (items rb),
                   position := (pos + length samples) mod 2048,
                   numWritten := numWritten rb + length samples\<rparr>;
          excerpt = drop (position rb') (items rb') @ take (position rb') (items rb');
          fftResults = spectrum excerpt
      in st\<lparr>ringBufferOfSamples := rb',
            fftOutputs := append (fftOutputs st) (fresh st),
            store := (store st)(fresh st := fftResults),
            fresh := fresh st + 1\<rparr>)"

text \<open>Lines 361-364, the \<^verbatim>\<open>forEach\<close> over the offsets \<open>-1, -3, -6\<close> for one bin \<open>i\<close>:
  the slot index is \<^verbatim>\<open>(position + offset) % bufferSize\<close> with JavaScript's remainder,
  and the cell \<open>i\<close> of the array in that slot is overwritten with the running maximum.
  A slot index that is not an index of the ring reads \<^verbatim>\<open>undefined\<close>, and the cell
  access on it throws.\<close>

fun spread_offsets ::
  "SignatureGenerator \<Rightarrow> nat \<Rightarrow> num \<Rightarrow> int list \<Rightarrow> error option \<times> SignatureGenerator" where
  "spread_offsets st i maxVal [] = (None, st)"
| "spread_offsets st i maxVal (offset # offsets) =
     (let pos = js_rem (int (position (spreadFftsOutput st)) + offset)
                       (int (bufferSize (spreadFftsOutput st)))
      in case ring_at (spreadFftsOutput st) pos of
           None \<Rightarrow> (Some TypeError, st)
         | Some r \<Rightarrow>
             (let maxVal' = Math_max (aget (store st r) i) maxVal
              in spread_offsets (st\<lparr>store := (store st)(r := aset (store st r) i maxVal')\<rparr>)
                   i maxVal' offsets))"

declare spread_offsets.simps [simp del]

text \<open>Lines 356-365, the loop over the bins \<open>0..1024\<close>, on the local copy
  \<^verbatim>\<open>spreadFft\<close>.\<close>

function spread_loop ::
  "SignatureGenerator \<Rightarrow> num list \<Rightarrow> nat \<Rightarrow> error option \<times> SignatureGenerator \<times> num list" where
  "spread_loop st spreadFft i =
     (if i < 1025 then
        (let spreadFft' =
               (if i < 1023
                then aset spreadFft i
                       (Math_max (Math_max (aget spreadFft i) (aget spreadFft (i + 1)))
                          (aget spreadFft (i + 2)))
                else spreadFft)
         in case spread_offsets st i (aget spreadFft' i) [- 1, - 3, - 6] of
              (Some e, st') \<Rightarrow> (Some e, st', spreadFft')
            | (None, st') \<Rightarrow> spread_loop st' spreadFft' (i + 1))
      else (None, st, spreadFft))"
  by pat_completeness auto
termination
  by (relation "measure (\<lambda>(st, spreadFft, i). 1025 - i)") auto

declare spread_loop.simps [simp del]

text \<open>Lines 352-368, \<^verbatim>\<open>doPeakSpreading\<close>. \<^verbatim>\<open>lastFft\<close> is the slot \<^verbatim>\<open>position - 1\<close> of
  \<^verbatim>\<open>fftOutputs\<close>, \<^verbatim>\<open>undefined\<close> when the cursor is 0, and \<^verbatim>\<open>lastFft.slice()\<close> throws
  then. The copy is appended to the spread ring as a new array.\<close>

definition doPeakSpreading :: "SignatureGenerator \<Rightarrow> error option \<times> SignatureGenerator" where
  "doPeakSpreading st =
     (case ring_at (fftOutputs st) (int (position (fftOutputs st)) - 1) of
        None \<Rightarrow> (Some TypeError, st)
      | Some lastFft \<Rightarrow>
          (case spread_loop st (store st lastFft) 0 of
             (Some e, st', spreadFft) \<Rightarrow> (Some e, st')
           | (None, st', spreadFft) \<Rightarrow>
               (None, st'\<lparr>spreadFftsOutput := append (spreadFftsOutput st') (fresh st'),
                          store := (store st')(fresh st' := spreadFft),
                          fresh := fresh st' + 1\<rparr>)))"

section \<open>\<^verbatim>\<open>doPeakRecognition\<close>\<close>

text \<open>Lines 401-407: the band of a frequency; \<open>None\<close> when the peak is dropped
  (below 250 Hz, or above 5500 Hz by the \<^verbatim>\<open>continue\<close>).\<close>

definition peak_band :: "num \<Rightarrow> int option" where
  "peak_band frequencyHz =
     (if num_ge frequencyHz (Some 250) then
        if num_lt frequencyHz (Some 520) then Some 0
        else if num_lt frequencyHz (Some 1450) then Some 1
        else if num_lt frequencyHz (Some 3500) then Some 2
        else if num_le frequencyHz (Some 5500) then Some 3
        else None
      else None)"

text \<open>Lines 385-387: the maximum over the spread frames at the six cursor offsets,
  at bin \<open>i - 1\<close>.\<close>

fun other_neighbours :: "SignatureGenerator \<Rightarrow> nat \<Rightarrow> num \<Rightarrow> int list \<Rightarrow> error + num" where
  "other_neighbours st i m [] = Inr m"
| "other_neighbours st i m (offset # offsets) =
     (case ring_at (spreadFftsOutput st)
             (js_rem (int (position (spreadFftsOutput st)) + offset)
                     (int (bufferSize (spreadFftsOutput st)))) of
        None \<Rightarrow> Inl TypeError
      | Some r \<Rightarrow> other_neighbours st i (Math_max (aget (store st r) (i - 1)) m) offsets)"

declare other_neighbours.simps [simp del]

text \<open>Lines 391-393: \<^verbatim>\<open>Math.log(Math.max(1 / 64, v)) * 1477.3 + 6144\<close>.\<close>

definition magnitude :: "num \<Rightarrow> num" where
  "magnitude v =
     num_op (+) (num_op (*) (Math_log (Math_max (Some (1 / 64)) v)) (Some 1477.3)) (Some 6144)"

text \<open>Lines 377-407 for one bin \<open>i\<close>: \<open>Inl\<close> an exception, \<open>Inr None\<close> when the bin is
  not a peak or the peak is dropped, and \<open>Inr (Some (fftNumber, peakMagnitude,
  correctedPeakFrequencyBin, band))\<close> when control reaches line 409 with these values
  of the local variables.\<close>

definition peak_at ::
  "SignatureGenerator \<Rightarrow> nat \<Rightarrow> error + (int \<times> num \<times> num \<times> int) option" where
  "peak_at st i =
     (let fo = fftOutputs st; so = spreadFftsOutput st in
      case ring_at fo (js_rem (int (position fo) - 46) (int (bufferSize fo))) of
        None \<Rightarrow> Inl TypeError
      | Some r46 \<Rightarrow>
      let fftMinus46 = store st r46 in
      if \<not> num_ge (aget fftMinus46 i) (Some (1 / 64)) then Inr None else
      case ring_at so (js_rem (int (position so) - 49) (int (bufferSize so))) of
        None \<Rightarrow> Inl TypeError
      | Some r49 \<Rightarrow>
      let fftMinus49 = store st r49 in
      if \<not> num_ge (aget fftMinus46 i) (aget fftMinus49 (i - 1)) then Inr None else
      let maxNeighborInFftMinus49 =
            foldl (\<lambda>m offset. Math_max (aget fftMinus49 (nat (int i + offset))) m) (Some 0)
              [- 10, - 3, 1, 2, 5, 8] in
      if \<not> num_gt (aget fftMinus46 i) maxNeighborInFftMinus49 then Inr None else
      case other_neighbours st i maxNeighborInFftMinus49 [- 53, - 45, 165, 201, 214, 250] of
        Inl e \<Rightarrow> Inl e
      | Inr maxNeighborInOtherAdjacentFfts \<Rightarrow>
      if \<not> num_gt (aget fftMinus46 i) maxNeighborInOtherAdjacentFfts then Inr None else
      let fftNumber = int (numWritten so) - 46;
          peakMagnitude = magnitude (aget fftMinus46 i);
          peakMagnitudeBefore = magnitude (aget fftMinus46 (i - 1));
          peakMagnitudeAfter = magnitude (aget fftMinus46 (i + 1));
          peakVariation1 =
            num_op (-) (num_op (-) (num_op (*) peakMagnitude (Some 2)) peakMagnitudeBefore)
              peakMagnitudeAfter;
          peakVariation2 =
            num_div (num_op (*) (num_op (-) peakMagnitudeAfter peakMagnitudeBefore) (Some 32))
              peakVariation1;
          correctedPeakFrequencyBin = num_op (+) (Some (real i * 64)) peakVariation2 in
      if \<not> num_gt peakVariation1 (Some 0) then Inr None else
      let frequencyHz = num_op (*) correctedPeakFrequencyBin (Some (16000 / 2 / 1024 / 64)) in
      case peak_band frequencyHz of
        None \<Rightarrow> Inr None
      | Some band \<Rightarrow> Inr (Some (fftNumber, peakMagnitude, correctedPeakFrequencyBin, band)))"

text \<open>Lines 409-413. The band's list is created when the map has none. The argument
  list of \<^verbatim>\<open>new FrequencyPeak(...)\<close> is evaluated before the call and before \<^verbatim>\<open>push\<close>:
  its second argument reads the identifier \<^verbatim>\<open>peak_magnitude\<close>, which no scope binds
  (the locals are \<^verbatim>\<open>peakMagnitude\<close> and \<^verbatim>\<open>correctedPeakFrequencyBin\<close>, here \<open>peakMag\<close>
  and \<open>correctedBin\<close>), so the statement throws and nothing is pushed.\<close>

definition emit_peak ::
  "SignatureGenerator \<Rightarrow> int \<Rightarrow> num \<Rightarrow> num \<Rightarrow> int \<Rightarrow> error option \<times> SignatureGenerator" where
  "emit_peak st fftNumber peakMag correctedBin band =
     (let sig = nextSignature st;
          m = frequencyBandToSoundPeaks sig;
          st' = (if obj_get m (num_key band) = None
                 then st\<lparr>nextSignature :=
                          sig\<lparr>frequencyBandToSoundPeaks := obj_set m (num_key band) []\<rparr>\<rparr>
                 else st)
      in (Some ReferenceError, st'))"

text \<open>Lines 376-419, the loop over the bins \<open>10..1014\<close>.\<close>

function recognition_loop :: "SignatureGenerator \<Rightarrow> nat \<Rightarrow> error option \<times> SignatureGenerator" where
  "recognition_loop st i =
     (if i < 1015 then
        (case peak_at st i of
           Inl e \<Rightarrow> (Some e, st)
         | Inr None \<Rightarrow> recognition_loop st (i + 1)
         | Inr (Some (fftNumber, peakMag, correctedBin, band)) \<Rightarrow>
             (case emit_peak st fftNumber peakMag correctedBin band of
                (Some e, st') \<Rightarrow> (Some e, st')
              | (None, st') \<Rightarrow> recognition_loop st' (i + 1)))
      else (None, st))"
  by pat_completeness auto
termination
  by (relation "measure (\<lambda>(st, i). 1015 - i)") auto

declare recognition_loop.simps [simp del]

definition doPeakRecognition :: "SignatureGenerator \<Rightarrow> error option \<times> SignatureGenerator" where
  "doPeakRecognition st = recognition_loop st 10"

text \<open>Lines 345-350.\<close>

definition doPeakSpreadingAndRecognition ::
  "SignatureGenerator \<Rightarrow> error option \<times> SignatureGenerator" where
  "doPeakSpreadingAndRecognition st =
     (case doPeakSpreading st of
        (Some e, st') \<Rightarrow> (Some e, st')
      | (None, st') \<Rightarrow>
          if numWritten (spreadFftsOutput st') \<ge> 46 then doPeakRecognition st'
          else (None, st'))"

section \<open>\<^verbatim>\<open>processInput\<close> and \<^verbatim>\<open>getNextSignature\<close>\<close>

text \<open>Lines 324-331, \<^verbatim>\<open>processInput\<close>: the sample count grows by the length of the block,
  and the \<^verbatim>\<open>for\<close> loop takes the block 128 samples at a time (\<^verbatim>\<open>slice(i, i + 128)\<close>
  for \<open>i = 0, 128, ...\<close>).\<close>

function process_chunks ::
  "(int list \<Rightarrow> num list) \<Rightarrow> int list \<Rightarrow> SignatureGenerator \<Rightarrow> error option \<times> SignatureGenerator" where
  "process_chunks spectrum samples st =
     (if samples = [] then (None, st)
      else case doPeakSpreadingAndRecognition (doFft spectrum (take 128 samples) st) of
             (Some e, st') \<Rightarrow> (Some e, st')
           | (None, st') \<Rightarrow> process_chunks spectrum (drop 128 samples) st')"
  by pat_completeness auto
termination
  by (relation "measure (\<lambda>(spectrum, samples, st). length samples)") auto

declare process_chunks.simps [simp del]

definition processInput ::
  "(int list \<Rightarrow> num list) \<Rightarrow> int list \<Rightarrow> SignatureGenerator \<Rightarrow> error option \<times> SignatureGenerator" where
  "processInput spectrum samples st =
     process_chunks spectrum samples
       (st\<lparr>nextSignature :=
             (nextSignature st)\<lparr>numberSamples :=
                numberSamples (nextSignature st) + int (length samples)\<rparr>\<rparr>)"

text \<open>The loop condition of lines 304-306. \<open>total_peaks\<close> is the \<^verbatim>\<open>reduce\<close> over
  \<^verbatim>\<open>Object.values\<close>. \<open>under_time_limit\<close> is \<^verbatim>\<open>numberSamples / sampleRateHz <
  MAX_TIME_SECONDS\<close>: false when the limit is not a number, and with JavaScript's
  quotient by zero (minus infinity, below every limit, only for a negative count).
  The two limits are joined by \<^verbatim>\<open>||\<close>.\<close>

definition total_peaks :: "DecodedMessage \<Rightarrow> int" where
  "total_peaks sig = foldl (\<lambda>acc peaks. acc + int (length peaks)) 0
                       (map snd (frequencyBandToSoundPeaks sig))"

definition under_time_limit :: "num \<Rightarrow> DecodedMessage \<Rightarrow> bool" where
  "under_time_limit limit sig =
     (case limit of
        None \<Rightarrow> False
      | Some m \<Rightarrow>
          if sampleRateHz sig = 0 then numberSamples sig < 0
          else real_of_int (numberSamples sig) / real_of_int (sampleRateHz sig) < m)"

definition keep_processing :: "SignatureGenerator \<Rightarrow> bool" where
  "keep_processing st \<longleftrightarrow>
     int (length (inputPendingProcessing st)) - samplesProcessed st \<ge> 128
     \<and> (under_time_limit (MAX_TIME_SECONDS st) (nextSignature st)
        \<or> total_peaks (nextSignature st) < MAX_PEAKS st)"

text \<open>None of the methods that \<^verbatim>\<open>processInput\<close> calls assigns
  \<^verbatim>\<open>inputPendingProcessing\<close> or \<^verbatim>\<open>samplesProcessed\<close>; the loop of
  \<^verbatim>\<open>getNextSignature\<close> terminates for that reason.\<close>

definition same_input :: "SignatureGenerator \<Rightarrow> SignatureGenerator \<Rightarrow> bool" where
  "same_input st st' \<longleftrightarrow>
     inputPendingProcessing st' = inputPendingProcessing st
     \<and> samplesProcessed st' = samplesProcessed st"

lemma same_input_refl [simp]: "same_input st st"
  by (simp add: same_input_def)

lemma same_input_trans: "same_input a b \<Longrightarrow> same_input b c \<Longrightarrow> same_input a c"
  by (simp add: same_input_def)

lemma spread_offsets_same_input: "same_input st (snd (spread_offsets st i m offs))"
proof (induction offs arbitrary: st m)
  case Nil
  show ?case by (simp add: spread_offsets.simps)
next
  case (Cons offset offs)
  show ?case
  proof (cases "ring_at (spreadFftsOutput st)
                  (js_rem (int (position (spreadFftsOutput st)) + offset)
                          (int (bufferSize (spreadFftsOutput st))))")
    case None
    then show ?thesis by (simp add: Let_def spread_offsets.simps)
  next
    case (Some r)
    let ?m = "Math_max (aget (store st r) i) m"
    let ?st = "st\<lparr>store := (store st)(r := aset (store st r) i ?m)\<rparr>"
    have "same_input st ?st" by (simp add: same_input_def)
    moreover have "same_input ?st (snd (spread_offsets ?st i ?m offs))" by (rule Cons.IH)
    ultimately show ?thesis using Some by (simp add: Let_def same_input_trans spread_offsets.simps)
  qed
qed

lemma spread_offsets_same_inputD:
  "spread_offsets st i m offs = (r, st') \<Longrightarrow> same_input st st'"
  using spread_offsets_same_input[of st i m offs] by simp

lemma spread_loop_same_input: "same_input st (fst (snd (spread_loop st sf i)))"
proof (induction st sf i rule: spread_loop.induct)
  case (1 st spreadFft i)
  show ?case
  proof (cases "i < 1025")
    case False
    then show ?thesis by (simp add: spread_loop.simps)
  next
    case True
    define sf' where "sf' = (if i < 1023
                then aset spreadFft i
                       (Math_max (Math_max (aget spreadFft i) (aget spreadFft (i + 1)))
                          (aget spreadFft (i + 2)))
                else spreadFft)"
    obtain r st' where so: "spread_offsets st i (aget sf' i) [- 1, - 3, - 6] = (r, st')"
      by (cases "spread_offsets st i (aget sf' i) [- 1, - 3, - 6]")
    then have a: "same_input st st'" by (rule spread_offsets_same_inputD)
    have unfold: "spread_loop st spreadFft i
        = (case (r, st') of (Some e, st') \<Rightarrow> (Some e, st', sf')
           | (None, st') \<Rightarrow> spread_loop st' sf' (i + 1))"
      using True so unfolding sf'_def
      by (subst spread_loop.simps) (simp add: Let_def)
    show ?thesis
    proof (cases r)
      case (Some e)
      with a unfold show ?thesis by simp
    next
      case None
      have "same_input st' (fst (snd (spread_loop st' sf' (i + 1))))"
        by (rule "1.IH"[OF True sf'_def, of None st']) (simp_all add: so None)
      with a have "same_input st (fst (snd (spread_loop st' sf' (i + 1))))"
        by (rule same_input_trans)
      with None unfold show ?thesis by simp
    qed
  qed
qed

lemma doPeakSpreading_same_input: "same_input st (snd (doPeakSpreading st))"
proof (cases "ring_at (fftOutputs st) (int (position (fftOutputs st)) - 1)")
  case None
  then show ?thesis by (simp add: doPeakSpreading_def)
next
  case (Some lastFft)
  obtain r st' sf where sl: "spread_loop st (store st lastFft) 0 = (r, st', sf)"
    by (cases "spread_loop st (store st lastFft) 0")
  then have "same_input st st'"
    using spread_loop_same_input[of st "store st lastFft" 0] by simp
  then show ?thesis
    using Some sl by (cases r) (simp_all add: doPeakSpreading_def same_input_def)
qed

lemma emit_peak_same_input: "same_input st (snd (emit_peak st n m c b))"
  by (simp add: emit_peak_def Let_def same_input_def)

lemma emit_peak_throws:
  "\<exists>st'. emit_peak st n m c b = (Some ReferenceError, st') \<and> same_input st st'"
  by (simp add: emit_peak_def Let_def same_input_def)

lemma recognition_loop_same_input: "same_input st (snd (recognition_loop st i))"
proof (induction st i rule: recognition_loop.induct)
  case (1 st i)
  show ?case
  proof (cases "i < 1015")
    case False
    then show ?thesis by (simp add: recognition_loop.simps)
  next
    case True
    show ?thesis
    proof (cases "peak_at st i")
      case (Inl e)
      with True show ?thesis by (subst recognition_loop.simps) simp
    next
      case (Inr p)
      show ?thesis
      proof (cases p)
        case None
        with True Inr "1.IH"(1) show ?thesis by (subst recognition_loop.simps) simp
      next
        case (Some q)
        obtain n m c b where q: "q = (n, m, c, b)" by (cases q)
        obtain st' where "emit_peak st n m c b = (Some ReferenceError, st')" "same_input st st'"
          using emit_peak_throws by blast
        with True Inr Some q show ?thesis
          by (subst recognition_loop.simps) simp
      qed
    qed
  qed
qed

lemma doPSAR_same_input: "same_input st (snd (doPeakSpreadingAndRecognition st))"
proof -
  obtain r st' where ps: "doPeakSpreading st = (r, st')" by (cases "doPeakSpreading st")
  then have a: "same_input st st'" using doPeakSpreading_same_input[of st] by simp
  show ?thesis
  proof (cases r)
    case (Some e)
    with ps a show ?thesis by (simp add: doPeakSpreadingAndRecognition_def)
  next
    case None
    have "same_input st' (snd (doPeakRecognition st'))"
      unfolding doPeakRecognition_def by (rule recognition_loop_same_input)
    with a have "same_input st (snd (doPeakRecognition st'))" by (rule same_input_trans)
    with None ps a show ?thesis by (simp add: doPeakSpreadingAndRecognition_def)
  qed
qed

lemma doFft_same_input: "same_input st (doFft spectrum samples st)"
  by (simp add: doFft_def Let_def same_input_def)

lemma process_chunks_same_input: "same_input st (snd (process_chunks spectrum samples st))"
proof (induction spectrum samples st rule: process_chunks.induct)
  case (1 spectrum samples st)
  show ?case
  proof (cases "samples = []")
    case True
    then show ?thesis by (simp add: process_chunks.simps)
  next
    case False
    let ?st = "doFft spectrum (take 128 samples) st"
    obtain r st' where d: "doPeakSpreadingAndRecognition ?st = (r, st')"
      by (cases "doPeakSpreadingAndRecognition ?st")
    have a: "same_input st st'"
      using same_input_trans[OF doFft_same_input doPSAR_same_input, of st spectrum "take 128 samples"] d
      by simp
    show ?thesis
    proof (cases r)
      case (Some e)
      with False d a show ?thesis by (subst process_chunks.simps) simp
    next
      case None
      have "same_input st' (snd (process_chunks spectrum (drop 128 samples) st'))"
        using "1.IH" False d None by simp
      with a have "same_input st (snd (process_chunks spectrum (drop 128 samples) st'))"
        by (rule same_input_trans)
      with False d None show ?thesis by (subst process_chunks.simps) simp
    qed
  qed
qed

lemma processInput_same_input: "same_input st (snd (processInput spectrum samples st))"
proof -
  let ?st = "st\<lparr>nextSignature := (nextSignature st)\<lparr>numberSamples :=
                numberSamples (nextSignature st) + int (length samples)\<rparr>\<rparr>"
  have "same_input st ?st" by (simp add: same_input_def)
  moreover have "same_input ?st (snd (process_chunks spectrum samples ?st))"
    by (rule process_chunks_same_input)
  ultimately show ?thesis unfolding processInput_def by (rule same_input_trans)
qed

text \<open>Lines 304-309, the \<^verbatim>\<open>while\<close> loop, and lines 299-322,
  \<^verbatim>\<open>getNextSignature\<close>: \<open>Inr None\<close> is \<^verbatim>\<open>null\<close>.\<close>

function signature_loop ::
  "(int list \<Rightarrow> num list) \<Rightarrow> SignatureGenerator \<Rightarrow> error option \<times> SignatureGenerator" where
  "signature_loop spectrum st =
     (if keep_processing st then
        (case processInput spectrum
                (js_slice (inputPendingProcessing st) (samplesProcessed st)
                   (samplesProcessed st + 128)) st of
           (Some e, st') \<Rightarrow> (Some e, st')
         | (None, st') \<Rightarrow>
             signature_loop spectrum (st'\<lparr>samplesProcessed := samplesProcessed st' + 128\<rparr>))
      else (None, st))"
  by pat_completeness auto
termination
proof (relation "measure (\<lambda>(spectrum, st).
         nat (int (length (inputPendingProcessing st)) - samplesProcessed st))", goal_cases)
  case 1
  show ?case by simp
next
  case (2 spectrum st r st')
  have "same_input st st'"
    using processInput_same_input[of st spectrum "js_slice (inputPendingProcessing st)
      (samplesProcessed st) (samplesProcessed st + 128)"] 2(2)[symmetric] by simp
  with 2(1) show ?case by (simp add: keep_processing_def same_input_def)
qed

declare signature_loop.simps [simp del]

definition getNextSignature ::
  "(int list \<Rightarrow> num list) \<Rightarrow> SignatureGenerator
     \<Rightarrow> (error + DecodedMessage option) \<times> SignatureGenerator" where
  "getNextSignature spectrum st =
     (if int (length (inputPendingProcessing st)) - samplesProcessed st < 128
      then (Inr None, st)
      else case signature_loop spectrum st of
             (Some e, st') \<Rightarrow> (Inl e, st')
           | (None, st') \<Rightarrow>
               (Inr (Some (nextSignature st')),
                reset_rings (st'\<lparr>nextSignature := new_signature\<rparr>)))"

section \<open>The codec: reading back what was written\<close>

lemma readUInt32LE_take48:
  "off + 4 \<le> 48 \<Longrightarrow> readUInt32LE (take 48 data) off = readUInt32LE data off"
  by (auto simp: readUInt32LE_def)

lemma length_splice_bytes:
  "off + length bs \<le> length buf \<Longrightarrow> length (splice_bytes buf off bs) = length buf"
  by (simp add: splice_bytes_def)

lemma length_le32 [simp]: "length (le32 v) = 4"
  by (simp add: le32_def)

lemma writeUInt32LE_length:
  "writeUInt32LE buf v off = Inr buf' \<Longrightarrow> length buf' = length buf"
  by (auto simp: writeUInt32LE_def length_splice_bytes split: if_splits)

lemma nth_splice_bytes:
  "off + length bs \<le> length buf \<Longrightarrow> i < length bs \<Longrightarrow> splice_bytes buf off bs ! (off + i) = bs ! i"
  by (simp add: splice_bytes_def nth_append)

lemma le32_value:
  assumes "v < 2 ^ 32"
  shows "unat (le32 v ! 0) + 256 * unat (le32 v ! 1) + 65536 * unat (le32 v ! 2)
         + 16777216 * unat (le32 v ! 3) = v"
proof -
  have a: "v = v mod 256 + 256 * (v div 256)" by simp
  have b: "v div 256 = v div 256 mod 256 + 256 * (v div 65536)"
    using div_mult2_eq[of v 256 256] by simp
  have c: "v div 65536 = v div 65536 mod 256 + 256 * (v div 16777216)"
    using div_mult2_eq[of v 65536 256] by simp
  have d: "v div 16777216 mod 256 = v div 16777216"
    using assms by (simp add: less_mult_imp_div_less)
  have "v mod 256 + 256 * (v div 256 mod 256) + 65536 * (v div 65536 mod 256)
        + 16777216 * (v div 16777216 mod 256) = v"
    using a b c d by linarith
  then show ?thesis
    using d by (simp add: le32_def unat_of_nat)
qed

lemma read_after_write:
  assumes "off + 4 \<le> length buf" "v < 2 ^ 32"
  shows "readUInt32LE (splice_bytes buf off (le32 v)) off = Inr v"
proof -
  have n: "\<And>i. i < 4 \<Longrightarrow> splice_bytes buf off (le32 v) ! (off + i) = le32 v ! i"
    using assms(1) by (simp add: nth_splice_bytes)
  have "splice_bytes buf off (le32 v) ! off = le32 v ! 0" using n[of 0] by simp
  moreover note n[of 1] n[of 2] n[of 3]
  ultimately show ?thesis
    using assms le32_value[OF assms(2)]
    by (simp add: readUInt32LE_def length_splice_bytes)
qed

lemma readUInt32LE_total:
  "off + 4 \<le> length buf \<Longrightarrow> \<exists>n. readUInt32LE buf off = Inr n"
  by (simp add: readUInt32LE_def)

lemma decodeFromBinary_rejects:
  assumes "readUInt32LE (take 48 data) 0 = Inr m1" "readUInt32LE (take 48 data) 4 = Inr c"
    "readUInt32LE (take 48 data) 8 = Inr sz" "readUInt32LE (take 48 data) 12 = Inr m2"
    "readUInt32LE (take 48 data) 28 = Inr r"
    "m1 \<noteq> 0xcafe2580 \<or> int sz \<noteq> int (length data) - 48
     \<or> digest_hex (crc32 (drop 8 data)) \<noteq> toString16 c \<or> m2 \<noteq> 0x94119c00"
  shows "decodeFromBinary data = Inl (Error ''Invalid signature header'')"
  unfolding decodeFromBinary_def Let_def using assms by auto


lemma writeUInt32LE_crc:
  "8 \<le> length header \<Longrightarrow> \<exists>h'. writeUInt32LE header (real (unat (crc :: 32 word))) 4 = Inr h'"
proof -
  assume "8 \<le> length header"
  moreover have "unat crc < 2 ^ 32" using unsigned_less[of crc] by simp
  then have "unat crc \<le> 4294967295" by simp
  then have "real (unat crc) \<le> 4294967295" using of_nat_le_iff[of "unat crc" 4294967295, where 'a=real] by simp
  moreover have "\<not> real (unat crc) < 0" unfolding not_less by (rule of_nat_0_le_iff)
  ultimately show ?thesis unfolding writeUInt32LE_def by (simp del: of_nat_unat)
qed

lemma encodeToBinary_InrD:
  assumes "encodeToBinary S = Inr buf"
  obtains h5 contents header where
    "length h5 = 48"
    "writeUInt32LE h5 (real (length (concat contents) + 8)) 8 = Inr header"
    "buf = header @ concat contents"
proof -
  from assms obtain h1 where 1: "writeUInt32LE (replicate 48 0) 0xcafe2580 0 = Inr h1"
    unfolding encodeToBinary_def by (cases "writeUInt32LE (replicate 48 0) 0xcafe2580 0") simp_all
  from assms 1 obtain h2 where 2: "writeUInt32LE h1 0x94119c00 12 = Inr h2"
    unfolding encodeToBinary_def by (cases "writeUInt32LE h1 0x94119c00 12") simp_all
  from assms 1 2 obtain h3 where
    3: "writeUInt32LE h2 (real_of_int (js_shl27 (sampleRateHz S))) 28 = Inr h3"
    unfolding encodeToBinary_def
    by (cases "writeUInt32LE h2 (real_of_int (js_shl27 (sampleRateHz S))) 28") simp_all
  from assms 1 2 3 obtain h4 where 4: "writeUInt32LE h3 (15 * 2 ^ 19 + 0x40000) 44 = Inr h4"
    unfolding encodeToBinary_def
    by (cases "writeUInt32LE h3 (15 * 2 ^ 19 + 0x40000) 44") simp_all
  from assms 1 2 3 4 obtain h5 where
    5: "writeUInt32LE h4 (real_of_int (numberSamples S) + real_of_int (sampleRateHz S) * 0.24) 44 = Inr h5"
    unfolding encodeToBinary_def
    by (cases "writeUInt32LE h4 (real_of_int (numberSamples S) + real_of_int (sampleRateHz S) * 0.24) 44") simp_all
  from assms 1 2 3 4 5 obtain contents where
    6: "encode_bands (frequencyBandToSoundPeaks S) = Inr contents"
    unfolding encodeToBinary_def
    by (cases "encode_bands (frequencyBandToSoundPeaks S)") simp_all
  from assms 1 2 3 4 5 6 obtain header where
    7: "writeUInt32LE h5 (real (length (concat contents) + 8)) 8 = Inr header"
    unfolding encodeToBinary_def Let_def
    by (cases "writeUInt32LE h5 (real (length (concat contents) + 8)) 8") simp_all
  have l5: "length h5 = 48"
    using 1 2 3 4 5 by (simp add: writeUInt32LE_length)
  then have "length header = 48" using 7 by (simp add: writeUInt32LE_length)
  then obtain h' where
    "writeUInt32LE header (real (unat (crc32 (drop 8 (header @ concat contents))))) 4 = Inr h'"
    using writeUInt32LE_crc[of header] by auto
  with assms 1 2 3 4 5 6 7 have "buf = header @ concat contents"
    unfolding encodeToBinary_def Let_def by simp
  with l5 7 show thesis by (rule that)
qed


text \<open>
  C1 (codec round trip). The claim is that \<^verbatim>\<open>decodeFromBinary(encodeToBinary(S))\<close> equals
  \<open>S\<close> for every well-formed signature. The code does not achieve it for any
  signature: \<^verbatim>\<open>encodeToBinary\<close> stores the length of the band records plus 8 in the
  size field (line 148), and \<^verbatim>\<open>decodeFromBinary\<close> compares that field with the length of
  the buffer minus 48 (line 72), which is the length of the band records. Whatever
  \<^verbatim>\<open>encodeToBinary\<close> returns is rejected by \<^verbatim>\<open>decodeFromBinary\<close> with the error
  \<^verbatim>\<open>Invalid signature header\<close>.
\<close>

theorem encode_then_decode_fails:
  assumes "encodeToBinary S = Inr buf"
  shows "decodeFromBinary buf = Inl (Error ''Invalid signature header'')"
proof -
  from assms obtain h5 contents header where
    h5: "length h5 = 48" and
    hd: "writeUInt32LE h5 (real (length (concat contents) + 8)) 8 = Inr header" and
    buf: "buf = header @ concat contents"
    by (rule encodeToBinary_InrD)
  let ?t = "length (concat contents) + 8"
  have fl: "nat \<lfloor>real ?t\<rfloor> = ?t" by (metis floor_of_nat nat_int)
  from hd have "real ?t \<le> 4294967295" and header: "header = splice_bytes h5 8 (le32 ?t)"
    unfolding writeUInt32LE_def fl by (simp_all split: if_splits)
  then have lt: "?t < 2 ^ 32" by simp
  have len: "length header = 48" using hd h5 by (simp add: writeUInt32LE_length)
  have tk: "take 48 buf = header" using len buf by simp
  have sz: "readUInt32LE header 8 = Inr ?t"
    unfolding header using h5 lt by (intro read_after_write) simp_all
  obtain m1 c m2 r where rd: "readUInt32LE header 0 = Inr m1" "readUInt32LE header 4 = Inr c"
    "readUInt32LE header 12 = Inr m2" "readUInt32LE header 28 = Inr r"
    using readUInt32LE_total[of 0 header] readUInt32LE_total[of 4 header]
      readUInt32LE_total[of 12 header] readUInt32LE_total[of 28 header] len by auto
  have "int ?t \<noteq> int (length buf) - 48" using buf len by simp
  then show ?thesis
    using rd sz tk by (intro decodeFromBinary_rejects[of buf m1 c ?t m2 r]) simp_all
qed


text \<open>The failing input of C1: the empty 16 kHz signature, \<open>new_signature\<close>. Its
  encoding is the 48-byte header with size field 8 and a zero checksum field.\<close>

lemma unsigned_word32_bounds:
  "\<not> 4294967295 < (unsigned (c :: 32 word) :: real)" "\<not> (unsigned (c :: 32 word) :: real) < 0"
proof -
  have "unat c < 2 ^ 32" using unsigned_less[of c, where 'a=nat] by simp
  then have "unat c \<le> 4294967295" by simp
  then have "real (unat c) \<le> 4294967295" using of_nat_le_iff[of "unat c" 4294967295, where 'a=real] by simp
  then show "\<not> 4294967295 < (unsigned (c :: 32 word) :: real)" by simp
  have "0 \<le> real (unat c)" by (rule of_nat_0_le_iff)
  then show "\<not> (unsigned (c :: 32 word) :: real) < 0" by simp
qed

definition encoded_new_signature :: "byte list" where
  "encoded_new_signature = [0x80,0x25,0xfe,0xca, 0,0,0,0, 8,0,0,0, 0,0x9c,0x11,0x94,
      0,0,0,0,0,0,0,0,0,0,0,0,0,0,0,0,0,0,0,0,0,0,0,0,0,0,0,0, 0,0xf,0,0]"

lemma replicate_48: "replicate 48 (0::byte) = [0,0,0,0, 0,0,0,0, 0,0,0,0, 0,0,0,0,
      0,0,0,0,0,0,0,0,0,0,0,0,0,0,0,0,0,0,0,0,0,0,0,0,0,0,0,0, 0,0,0,0]"
  by (simp add: eval_nat_numeral)

lemma encode_new_signature: "encodeToBinary new_signature = Inr encoded_new_signature"
  unfolding encodeToBinary_def new_signature_def replicate_48
  by (simp add: writeUInt32LE_def splice_bytes_def le32_def
      js_shl27_def Let_def unsigned_word32_bounds encoded_new_signature_def)

theorem encode_then_decode_fails_witness:
  "encodeToBinary new_signature = Inr encoded_new_signature
   \<and> decodeFromBinary encoded_new_signature = Inl (Error ''Invalid signature header'')"
  using encode_new_signature encode_then_decode_fails[OF encode_new_signature] by simp



section \<open>The checksum detects a changed byte\<close>

text \<open>One step of the CRC register is injective (the top bit of the result is the
  bit shifted out), so two inputs of the same length that differ in one byte leave
  different registers.\<close>

lemma xor_cancel_right: "a XOR c = b XOR c \<Longrightarrow> a = (b :: 32 word)"
  by (metis xor.assoc xor_self_eq xor.right_neutral)

lemma xor_cancel_left: "c XOR a = c XOR b \<Longrightarrow> a = (b :: 32 word)"
  by (metis xor.left_commute xor_self_eq xor.right_neutral)

lemma crc32_step_top: "bit (crc32_step c) 31 \<longleftrightarrow> bit c 0"
  by (auto simp: crc32_step_def bit_simps dest: bit_imp_le_length)

lemma crc32_step_inj:
  assumes "crc32_step a = crc32_step b"
  shows "a = b"
proof -
  have b0: "bit a 0 \<longleftrightarrow> bit b 0"
    using crc32_step_top[of a] crc32_step_top[of b] assms by simp
  with assms have d: "drop_bit 1 a = drop_bit 1 b"
    by (auto simp: crc32_step_def split: if_splits dest: xor_cancel_right)
  show ?thesis
  proof (rule bit_eqI)
    fix n
    show "bit a n \<longleftrightarrow> bit b n"
    proof (cases n)
      case 0
      then show ?thesis using b0 by simp
    next
      case (Suc m)
      have "bit (drop_bit 1 a) m \<longleftrightarrow> bit (drop_bit 1 b) m" using d by simp
      then show ?thesis using Suc by (simp add: bit_drop_bit_eq)
    qed
  qed
qed

lemma crc32_step_pow_inj: "(crc32_step ^^ n) a = (crc32_step ^^ n) b \<Longrightarrow> a = b"
  by (induction n arbitrary: a b) (auto dest: crc32_step_inj)

lemma crc32_byte_inj_state: "crc32_byte a x = crc32_byte b x \<Longrightarrow> a = b"
  unfolding crc32_byte_def by (drule crc32_step_pow_inj) (rule xor_cancel_right)

lemma crc32_byte_inj_byte:
  assumes "crc32_byte s x = crc32_byte s y"
  shows "x = y"
proof -
  from assms have "s XOR ucast x = s XOR ucast y"
    unfolding crc32_byte_def by (rule crc32_step_pow_inj)
  then have eq: "(ucast x :: 32 word) = ucast y" by (rule xor_cancel_left)
  show ?thesis
  proof (rule bit_eqI)
    fix n
    have "bit (ucast x :: 32 word) n = bit (ucast y :: 32 word) n" using eq by simp
    then show "bit x n = bit y n"
      by (auto simp: bit_ucast_iff dest: bit_imp_le_length)
  qed
qed

lemma foldl_crc32_byte_inj:
  "foldl crc32_byte a xs = foldl crc32_byte b xs \<Longrightarrow> a = b"
  by (induction xs arbitrary: a b) (auto dest: crc32_byte_inj_state)

lemma crc32_detects_byte_change:
  assumes "i < length xs" "b \<noteq> xs ! i"
  shows "crc32 (xs[i := b]) \<noteq> crc32 xs"
proof
  assume eq: "crc32 (xs[i := b]) = crc32 xs"
  let ?s = "foldl crc32_byte (- 1) (take i xs)"
  have new: "xs[i := b] = take i xs @ b # drop (Suc i) xs"
    using assms(1) by (rule upd_conv_take_nth_drop)
  have old: "xs = take i xs @ xs ! i # drop (Suc i) xs"
    using assms(1) by (rule id_take_nth_drop)
  have "foldl crc32_byte (- 1) (xs[i := b]) = foldl crc32_byte (- 1) xs"
    using eq by (simp add: crc32_def)
  then have "foldl crc32_byte (crc32_byte ?s b) (drop (Suc i) xs)
           = foldl crc32_byte (crc32_byte ?s (xs ! i)) (drop (Suc i) xs)"
    by (subst (asm) new, subst (asm) (2) old) simp
  then have "crc32_byte ?s b = crc32_byte ?s (xs ! i)" by (rule foldl_crc32_byte_inj)
  then have "b = xs ! i" by (rule crc32_byte_inj_byte)
  with assms(2) show False by simp
qed

lemma hex_digit_inj: "a < 16 \<Longrightarrow> b < 16 \<Longrightarrow> hex_digit a = hex_digit b \<Longrightarrow> a = b"
  unfolding hex_digit_def
  by (subst (asm) nth_eq_iff_index_eq) simp_all

lemma digits_determine_mod:
  "(\<forall>k<m. (a div 16 ^ k) mod 16 = (b div 16 ^ k) mod 16) \<Longrightarrow> (a::nat) mod 16 ^ m = b mod 16 ^ m"
proof (induction m)
  case 0
  then show ?case by simp
next
  case (Suc m)
  have s: "\<And>x::nat. x mod 16 ^ Suc m = 16 ^ m * (x div 16 ^ m mod 16) + x mod 16 ^ m"
    by (simp only: power_Suc2 mod_mult2_eq)
  from Suc show ?case unfolding s by simp
qed

lemma digest_hex_inj:
  assumes "digest_hex a = digest_hex b"
  shows "a = b"
proof -
  have d: "\<And>k. k < 8 \<Longrightarrow> (unat a div 16 ^ k) mod 16 = (unat b div 16 ^ k) mod 16"
  proof -
    fix k :: nat assume "k < 8"
    then have "k \<in> set [7, 6, 5, 4, 3, 2, 1, 0::nat]" by auto
    with assms have "hex_digit ((unat a div 16 ^ k) mod 16) = hex_digit ((unat b div 16 ^ k) mod 16)"
      unfolding digest_hex_def map_eq_conv by blast
    then show "(unat a div 16 ^ k) mod 16 = (unat b div 16 ^ k) mod 16"
      by (intro hex_digit_inj) simp_all
  qed
  have "unat a mod 16 ^ 8 = unat b mod 16 ^ 8"
    by (rule digits_determine_mod) (simp add: d)
  moreover have "unat a < 16 ^ 8" "unat b < 16 ^ 8"
    using unsigned_less[of a, where 'a=nat] unsigned_less[of b, where 'a=nat] by simp_all
  ultimately have "unat a = unat b" by simp
  then show ?thesis by (simp add: word_unat_eq_iff)
qed


lemma readUInt32LE_update_other:
  "off + 4 \<le> i \<Longrightarrow> readUInt32LE (data[i := b]) off = readUInt32LE data off"
  by (simp add: readUInt32LE_def)

text \<open>
  C5 (checksum validation). Take a container with a complete header (at least 32
  bytes, so that the header reads of lines 66-70 succeed) whose stored checksum, bytes
  4..7, matches its \<^verbatim>\<open>bytes[8:]\<close> in the comparison of line 72: every container with the
  right magics, size and CRC is one, whatever its band records hold. After the byte at
  any position \<open>i \<ge> 8\<close> is replaced by a different value, \<^verbatim>\<open>decodeFromBinary\<close> throws
  \<^verbatim>\<open>Invalid signature header\<close>: the stored checksum is unchanged and the CRC-32 of
  \<^verbatim>\<open>bytes[8:]\<close> is not.
\<close>

theorem decodeFromBinary_detects_flip:
  assumes "32 \<le> length data" and "readUInt32LE data 4 = Inr c"
    and "digest_hex (crc32 (drop 8 data)) = toString16 c"
    and "8 \<le> i" and "i < length data" and "b \<noteq> data ! i"
  shows "decodeFromBinary (data[i := b]) = Inl (Error ''Invalid signature header'')"
proof -
  let ?d = "data[i := b]"
  have c': "readUInt32LE (take 48 ?d) 4 = Inr c"
    using assms(2,4) by (simp add: readUInt32LE_take48 readUInt32LE_update_other)
  from assms(1) obtain m1 sz m2 r where rd: "readUInt32LE (take 48 ?d) 0 = Inr m1"
    "readUInt32LE (take 48 ?d) 8 = Inr sz"
    "readUInt32LE (take 48 ?d) 12 = Inr m2" "readUInt32LE (take 48 ?d) 28 = Inr r"
    by (auto simp: readUInt32LE_take48 readUInt32LE_def)
  have "drop 8 ?d = (drop 8 data)[i - 8 := b]"
    using assms(4) by (simp add: drop_update_swap)
  moreover have "crc32 ((drop 8 data)[i - 8 := b]) \<noteq> crc32 (drop 8 data)"
    using assms(4,5,6) by (intro crc32_detects_byte_change) simp_all
  ultimately have "digest_hex (crc32 (drop 8 ?d)) \<noteq> toString16 c"
    using assms(3) digest_hex_inj by metis
  with rd c' show ?thesis
    by (intro decodeFromBinary_rejects[of ?d m1 c sz m2 r]) simp_all
qed

text \<open>Scenario S5. A container in the layout of the specification: the header of a
  16 kHz signature with no samples (size field 16, checksum \<open>0x2C8F2E23\<close>), and one
  band record for the band 520-1450 Hz holding one five-byte peak (pass 10, magnitude
  6144, corrected bin 8192) and three bytes of padding. Byte 57 is the low byte of the
  peak's magnitude.\<close>

definition one_peak_container :: "byte list" where
  "one_peak_container =
     [0x80,0x25,0xfe,0xca, 0x23,0x2e,0x8f,0x2c, 0x10,0x00,0x00,0x00, 0x00,0x9c,0x11,0x94,
      0,0,0,0, 0,0,0,0, 0,0,0,0, 0x00,0x00,0x00,0x18,
      0,0,0,0, 0,0,0,0, 0,0,0,0, 0x00,0x0f,0x00,0x00,
      0x41,0x00,0x03,0x60, 0x05,0x00,0x00,0x00,
      0x0a, 0x00,0x18, 0x00,0x20, 0x00,0x00,0x00]"

lemma funpow8: "(f ^^ 8) x = f (f (f (f (f (f (f (f x)))))))"
  by (simp add: eval_nat_numeral)

lemma one_peak_container_crc: "crc32 (drop 8 one_peak_container) = 0x2c8f2e23"
  by (simp add: one_peak_container_def crc32_def crc32_byte_def funpow8 crc32_step_def)

lemma one_peak_container_header:
  "length one_peak_container = 64"
  "readUInt32LE one_peak_container 0 = Inr 0xcafe2580"
  "readUInt32LE one_peak_container 4 = Inr 0x2c8f2e23"
  "readUInt32LE one_peak_container 8 = Inr (length one_peak_container - 48)"
  "readUInt32LE one_peak_container 12 = Inr 0x94119c00"
  by (simp_all add: one_peak_container_def readUInt32LE_def)

lemma one_peak_container_checksum:
  "digest_hex (crc32 (drop 8 one_peak_container)) = toString16 0x2c8f2e23"
  unfolding one_peak_container_crc
  by (simp add: digest_hex_def toString16.simps hex_digit_def)

theorem decodeFromBinary_detects_flip_witness:
  "readUInt32LE one_peak_container 0 = Inr 0xcafe2580
   \<and> readUInt32LE one_peak_container 8 = Inr (length one_peak_container - 48)
   \<and> readUInt32LE one_peak_container 12 = Inr 0x94119c00
   \<and> readUInt32LE one_peak_container 4 = Inr 0x2c8f2e23
   \<and> digest_hex (crc32 (drop 8 one_peak_container)) = toString16 0x2c8f2e23
   \<and> (8::nat) \<le> 57 \<and> 57 < length one_peak_container
   \<and> (0xff :: byte) \<noteq> one_peak_container ! 57
   \<and> decodeFromBinary (one_peak_container[57 := 0xff])
       = Inl (Error ''Invalid signature header'')"
proof -
  have l: "32 \<le> length one_peak_container" "57 < length one_peak_container"
    by (simp_all add: one_peak_container_header(1))
  have n: "(0xff :: byte) \<noteq> one_peak_container ! 57"
    by (simp add: one_peak_container_def)
  have "decodeFromBinary (one_peak_container[57 := 0xff])
          = Inl (Error ''Invalid signature header'')"
    using l(1) one_peak_container_header(3) one_peak_container_checksum _ l(2) n
    by (rule decodeFromBinary_detects_flip) simp
  with one_peak_container_header l n one_peak_container_checksum show ?thesis by simp
qed

text \<open>
  C7 (header validation). An input whose magic1 field is not \<open>0xCAFE2580\<close>, whose
  magic2 field is not \<open>0x94119C00\<close>, or whose size field is not the total length minus
  48, is never decoded: \<^verbatim>\<open>decodeFromBinary\<close> throws, and on any input of at least 32
  bytes (all five header reads of lines 66-70 succeed) the exception is the
  \<^verbatim>\<open>Invalid signature header\<close> error of line 73. A shorter input fails in a header read.
\<close>

theorem decodeFromBinary_rejects_bad_header:
  assumes "readUInt32LE data 0 \<noteq> Inr 0xcafe2580 \<or> readUInt32LE data 12 \<noteq> Inr 0x94119c00
           \<or> \<not> (48 \<le> length data \<and> readUInt32LE data 8 = Inr (length data - 48))"
  shows "(\<exists>e. decodeFromBinary data = Inl e)
         \<and> (32 \<le> length data \<longrightarrow> decodeFromBinary data = Inl (Error ''Invalid signature header''))"
proof (cases "32 \<le> length data")
  case True
  then obtain m1 c sz m2 r where rd: "readUInt32LE (take 48 data) 0 = Inr m1"
    "readUInt32LE (take 48 data) 4 = Inr c" "readUInt32LE (take 48 data) 8 = Inr sz"
    "readUInt32LE (take 48 data) 12 = Inr m2" "readUInt32LE (take 48 data) 28 = Inr r"
    by (auto simp: readUInt32LE_take48 readUInt32LE_def)
  with assms have "m1 \<noteq> 0xcafe2580 \<or> int sz \<noteq> int (length data) - 48 \<or> m2 \<noteq> 0x94119c00"
    by (auto simp: readUInt32LE_take48)
  with rd have "decodeFromBinary data = Inl (Error ''Invalid signature header'')"
    by (intro decodeFromBinary_rejects[of data m1 c sz m2 r]) auto
  then show ?thesis by simp
next
  case False
  then have "readUInt32LE (take 48 data) 28 = Inl RangeError"
    by (simp add: readUInt32LE_def)
  then have "\<exists>e. decodeFromBinary data = Inl e"
    unfolding decodeFromBinary_def Let_def by (simp split: sum.splits)
  with False show ?thesis by simp
qed

text \<open>Scenario S4: a 56-byte container (header and one empty band record, with size
  field and checksum to match) whose magic1 is altered to \<open>0xDEADBEEF\<close>.\<close>

definition deadbeef_container :: "byte list" where
  "deadbeef_container = [0xef,0xbe,0xad,0xde, 0xd1,0xdd,0xec,0xf5, 8,0,0,0, 0x00,0x9c,0x11,0x94,
      0,0,0,0,0,0,0,0,0,0,0,0, 0,0,0,0x18, 0,0,0,0,0,0,0,0,0,0,0,0, 0x00,0x0f,0,0,
      0x41,0x00,0x03,0x60, 0,0,0,0]"

theorem decodeFromBinary_rejects_bad_header_witness:
  "readUInt32LE deadbeef_container 0 = Inr 0xdeadbeef
   \<and> decodeFromBinary deadbeef_container = Inl (Error ''Invalid signature header'')"
proof -
  have r: "readUInt32LE deadbeef_container 0 = Inr 0xdeadbeef"
    by (simp add: deadbeef_container_def readUInt32LE_def)
  have l: "32 \<le> length deadbeef_container" by (simp add: deadbeef_container_def)
  show ?thesis
    using r l decodeFromBinary_rejects_bad_header[of deadbeef_container] by simp
qed

section \<open>Sequences of calls\<close>

text \<open>A caller drives one generator by \<^verbatim>\<open>feedInput\<close> and \<^verbatim>\<open>getNextSignature\<close> calls.
  \<open>run\<close> is the state after a sequence of calls; a call that throws leaves the object
  as it was at the throw, and the caller goes on. \<open>fed\<close> is all that was fed, in
  order.\<close>

datatype call = FeedInput "int list" | GetNextSignature

fun run :: "(int list \<Rightarrow> num list) \<Rightarrow> call list \<Rightarrow> SignatureGenerator \<Rightarrow> SignatureGenerator" where
  "run spectrum [] st = st"
| "run spectrum (FeedInput samples # cs) st = run spectrum cs (feedInput samples st)"
| "run spectrum (GetNextSignature # cs) st = run spectrum cs (snd (getNextSignature spectrum st))"


text \<open>The spectrum line 340 computes for a window of zeros: the transform of zeros is
  zero in every bin, and the clamp makes each of the 2048 cells \<open>1e-10\<close>.\<close>

definition silence_spectrum :: "int list \<Rightarrow> num list" where
  "silence_spectrum excerpt = replicate 2048 (Some (1 / 10 ^ 10))"


section \<open>The input queue\<close>


lemma reset_rings_input [simp]:
  "inputPendingProcessing (reset_rings st) = inputPendingProcessing st"
  "samplesProcessed (reset_rings st) = samplesProcessed st"
  by (simp_all add: reset_rings_def)







text \<open>
  C6 (no signature without data), as amended. \<^verbatim>\<open>getNextSignature\<close> returns \<^verbatim>\<open>null\<close>
  exactly when fewer than 128 unprocessed samples remain (line 300). After 1024 samples
  are fed, 1024 remain, so the call does not return \<^verbatim>\<open>null\<close>.
\<close>

theorem getNextSignature_null_iff:
  "fst (getNextSignature spectrum st) = Inr None
   \<longleftrightarrow> int (length (inputPendingProcessing st)) - samplesProcessed st < 128"
proof (cases "int (length (inputPendingProcessing st)) - samplesProcessed st < 128")
  case True
  then show ?thesis by (simp add: getNextSignature_def)
next
  case False
  obtain r st' where "signature_loop spectrum st = (r, st')"
    by (cases "signature_loop spectrum st")
  with False show ?thesis by (cases r) (simp_all add: getNextSignature_def)
qed

theorem getNextSignature_null_witness:
  "int (length (inputPendingProcessing (feedInput (replicate 100 0) SignatureGenerator_new)))
     - samplesProcessed (feedInput (replicate 100 0) SignatureGenerator_new) < 128
   \<and> fst (getNextSignature silence_spectrum (feedInput (replicate 100 0) SignatureGenerator_new))
       = Inr None"
proof -
  have "int (length (inputPendingProcessing (feedInput (replicate 100 0) SignatureGenerator_new)))
     - samplesProcessed (feedInput (replicate 100 0) SignatureGenerator_new) < 128"
    by (simp add: feedInput_def SignatureGenerator_new_def)
  then show ?thesis
    using getNextSignature_null_iff[of silence_spectrum
        "feedInput (replicate 100 0) SignatureGenerator_new"] by simp
qed


section \<open>The first spread pass\<close>

lemma spread_offsets_rings:
  "spreadFftsOutput (snd (spread_offsets st i m offs)) = spreadFftsOutput st
   \<and> fftOutputs (snd (spread_offsets st i m offs)) = fftOutputs st
   \<and> nextSignature (snd (spread_offsets st i m offs)) = nextSignature st
   \<and> MAX_PEAKS (snd (spread_offsets st i m offs)) = MAX_PEAKS st
   \<and> MAX_TIME_SECONDS (snd (spread_offsets st i m offs)) = MAX_TIME_SECONDS st"
proof (induction offs arbitrary: st m)
  case Nil
  show ?case by (simp add: spread_offsets.simps)
next
  case (Cons offset offs)
  show ?case
  proof (cases "ring_at (spreadFftsOutput st)
                  (js_rem (int (position (spreadFftsOutput st)) + offset)
                          (int (bufferSize (spreadFftsOutput st))))")
    case None
    then show ?thesis by (simp add: Let_def spread_offsets.simps)
  next
    case (Some r)
    let ?m = "Math_max (aget (store st r) i) m"
    let ?st = "st\<lparr>store := (store st)(r := aset (store st r) i ?m)\<rparr>"
    show ?thesis using Some Cons.IH[of ?st ?m] by (simp add: Let_def spread_offsets.simps)
  qed
qed

lemma ring_at_negative: "k < 0 \<Longrightarrow> ring_at r k = None"
  by (simp add: ring_at_def)

lemma spread_offsets_raises:
  assumes "position (spreadFftsOutput st) < 6" "bufferSize (spreadFftsOutput st) = 256"
  shows "fst (spread_offsets st i m [- 1, - 3, - 6]) = Some TypeError"
proof -
  let ?p = "int (position (spreadFftsOutput st))"
  have neg: "js_rem (?p + - 6) 256 < 0"
    using assms(1) by (simp add: js_rem_def)
  have third: "\<And>(s::SignatureGenerator) m'. spreadFftsOutput s = spreadFftsOutput st
      \<Longrightarrow> fst (spread_offsets s i m' [- 6]) = Some TypeError"
    using neg assms(2) by (simp add: spread_offsets.simps ring_at_negative)
  have second: "\<And>(s::SignatureGenerator) m'. spreadFftsOutput s = spreadFftsOutput st
      \<Longrightarrow> fst (spread_offsets s i m' [- 3, - 6]) = Some TypeError"
  proof -
    fix s :: SignatureGenerator and m' :: num
    assume s: "spreadFftsOutput s = spreadFftsOutput st"
    show "fst (spread_offsets s i m' [- 3, - 6]) = Some TypeError"
    proof (cases "ring_at (spreadFftsOutput s)
                  (js_rem (int (position (spreadFftsOutput s)) + - 3)
                          (int (bufferSize (spreadFftsOutput s))))")
      case None
      then show ?thesis by (simp add: spread_offsets.simps)
    next
      case (Some r)
      then show ?thesis
        using third[of "s\<lparr>store := (store s)(r := aset (store s r) i (Math_max (aget (store s r) i) m'))\<rparr>"] s
        by (subst spread_offsets.simps) (simp add: Let_def)
    qed
  qed
  show ?thesis
  proof (cases "ring_at (spreadFftsOutput st)
                  (js_rem (int (position (spreadFftsOutput st)) + - 1)
                          (int (bufferSize (spreadFftsOutput st))))")
    case None
    then show ?thesis by (simp add: spread_offsets.simps)
  next
    case (Some r)
    then show ?thesis
      using second[of "st\<lparr>store := (store st)(r := aset (store st r) i (Math_max (aget (store st r) i) m))\<rparr>"]
      by (subst spread_offsets.simps) (simp add: Let_def)
  qed
qed

lemma doPeakSpreading_raises:
  assumes "position (spreadFftsOutput st) < 6" and "bufferSize (spreadFftsOutput st) = 256"
  shows "fst (doPeakSpreading st) = Some TypeError"
proof (cases "ring_at (fftOutputs st) (int (position (fftOutputs st)) - 1)")
  case None
  then show ?thesis by (simp add: doPeakSpreading_def)
next
  case (Some lastFft)
  let ?sf = "store st lastFft"
  let ?sf' = "aset ?sf 0 (Math_max (Math_max (aget ?sf 0) (aget ?sf (0 + 1))) (aget ?sf (0 + 2)))"
  obtain r s where so: "spread_offsets st 0 (aget ?sf' 0) [- 1, - 3, - 6] = (r, s)"
    by (cases "spread_offsets st 0 (aget ?sf' 0) [- 1, - 3, - 6]")
  with spread_offsets_raises[OF assms, of 0 "aget ?sf' 0"] have r: "r = Some TypeError" by simp
  have "spread_loop st ?sf 0 = (Some TypeError, s, ?sf')"
    using so r by (subst spread_loop.simps) (simp add: Let_def)
  with Some show ?thesis by (simp add: doPeakSpreading_def)
qed

text \<open>
  C4 (spread-buffer indexing). The claim is that the three cells updated for a bin are
  at slot \<open>(writeCursor + \<delta>) mod 256\<close>, a valid index, for every cursor including those
  below 6. The code computes the slot with JavaScript's \<^verbatim>\<open>%\<close> (line 362), which is
  negative for a negative dividend: with the cursor below 6 the slot for \<open>\<delta> = -6\<close> is
  negative, the ring has no such element, and \<^verbatim>\<open>doPeakSpreading\<close> throws a
  \<^verbatim>\<open>TypeError\<close> on its first bin. The cursor is 0 on a new generator and after every
  signature, so the first spread pass always throws.
\<close>

theorem doPeakSpreading_raises_near_start:
  assumes "position (spreadFftsOutput st) < 6" and "bufferSize (spreadFftsOutput st) = 256"
  shows "js_rem (int (position (spreadFftsOutput st)) + - 6)
           (int (bufferSize (spreadFftsOutput st))) < 0
         \<and> ring_at (spreadFftsOutput st)
             (js_rem (int (position (spreadFftsOutput st)) + - 6)
                (int (bufferSize (spreadFftsOutput st)))) = None
         \<and> fst (doPeakSpreading st) = Some TypeError"
proof -
  have "js_rem (int (position (spreadFftsOutput st)) + - 6) 256 < 0"
    using assms(1) by (simp add: js_rem_def)
  then show ?thesis
    using assms doPeakSpreading_raises[OF assms] by (simp add: ring_at_negative)
qed

text \<open>The failing input of C4: a new generator after \<^verbatim>\<open>doFft\<close> of its first 128
  samples (zeros), as in the first iteration of \<^verbatim>\<open>getNextSignature\<close>.\<close>

theorem doPeakSpreading_raises_near_start_witness:
  "position (spreadFftsOutput (doFft silence_spectrum (replicate 128 0) SignatureGenerator_new)) < 6
   \<and> bufferSize (spreadFftsOutput (doFft silence_spectrum (replicate 128 0) SignatureGenerator_new)) = 256
   \<and> fst (doPeakSpreading (doFft silence_spectrum (replicate 128 0) SignatureGenerator_new))
       = Some TypeError"
proof -
  let ?st = "doFft silence_spectrum (replicate 128 0) SignatureGenerator_new"
  have a: "position (spreadFftsOutput ?st) < 6" and b: "bufferSize (spreadFftsOutput ?st) = 256"
    by (simp_all add: doFft_def Let_def SignatureGenerator_new_def reset_rings_def RingBuffer_new_def)
  show ?thesis using a b doPeakSpreading_raises_near_start[OF a b] by simp
qed

section \<open>A new generator\<close>

text \<open>\<open>rings_at_start\<close> holds of a new generator and is kept by every call: the spread
  cursor stays 0 because no spread pass completes. In such a state a
  \<^verbatim>\<open>getNextSignature\<close> call with 128 unprocessed samples counts the block (line 325),
  throws the \<^verbatim>\<open>TypeError\<close> of the spread pass and leaves \<^verbatim>\<open>samplesProcessed\<close> as it
  was.\<close>

definition rings_at_start :: "SignatureGenerator \<Rightarrow> bool" where
  "rings_at_start st \<longleftrightarrow>
     position (spreadFftsOutput st) = 0 \<and> bufferSize (spreadFftsOutput st) = 256
     \<and> frequencyBandToSoundPeaks (nextSignature st) = [] \<and> MAX_PEAKS st = 255
     \<and> 0 \<le> samplesProcessed st"

definition same_signature_state :: "SignatureGenerator \<Rightarrow> SignatureGenerator \<Rightarrow> bool" where
  "same_signature_state st st' \<longleftrightarrow>
     spreadFftsOutput st' = spreadFftsOutput st \<and> nextSignature st' = nextSignature st
     \<and> MAX_PEAKS st' = MAX_PEAKS st \<and> MAX_TIME_SECONDS st' = MAX_TIME_SECONDS st"

lemma spread_loop_rings:
  "same_signature_state st (fst (snd (spread_loop st sf i)))"
proof (induction st sf i rule: spread_loop.induct)
  case (1 st spreadFft i)
  show ?case
  proof (cases "i < 1025")
    case False
    then show ?thesis by (simp add: spread_loop.simps same_signature_state_def)
  next
    case True
    define sf' where "sf' = (if i < 1023
                then aset spreadFft i
                       (Math_max (Math_max (aget spreadFft i) (aget spreadFft (i + 1)))
                          (aget spreadFft (i + 2)))
                else spreadFft)"
    obtain r st' where so: "spread_offsets st i (aget sf' i) [- 1, - 3, - 6] = (r, st')"
      by (cases "spread_offsets st i (aget sf' i) [- 1, - 3, - 6]")
    have a: "same_signature_state st st'"
      using spread_offsets_rings[of st i "aget sf' i" "[- 1, - 3, - 6]"] so
      by (simp add: same_signature_state_def)
    have unfold: "spread_loop st spreadFft i
        = (case (r, st') of (Some e, st') \<Rightarrow> (Some e, st', sf')
           | (None, st') \<Rightarrow> spread_loop st' sf' (i + 1))"
      using True so unfolding sf'_def
      by (subst spread_loop.simps) (simp add: Let_def)
    show ?thesis
    proof (cases r)
      case (Some e)
      with a unfold show ?thesis by simp
    next
      case None
      have "same_signature_state st' (fst (snd (spread_loop st' sf' (i + 1))))"
        by (rule "1.IH"[OF True sf'_def, of None st']) (simp_all add: so None)
      with a have "same_signature_state st (fst (snd (spread_loop st' sf' (i + 1))))"
        by (simp add: same_signature_state_def)
      with None unfold show ?thesis by simp
    qed
  qed
qed

lemma doPeakSpreading_raises_state:
  assumes "doPeakSpreading st = (Some e, st')"
  shows "same_signature_state st st'"
proof (cases "ring_at (fftOutputs st) (int (position (fftOutputs st)) - 1)")
  case None
  with assms show ?thesis by (simp add: doPeakSpreading_def same_signature_state_def)
next
  case (Some lastFft)
  obtain r s sf where sl: "spread_loop st (store st lastFft) 0 = (r, s, sf)"
    by (cases "spread_loop st (store st lastFft) 0")
  with spread_loop_rings[of st "store st lastFft" 0] have "same_signature_state st s" by simp
  with assms Some sl show ?thesis by (cases r) (auto simp: doPeakSpreading_def)
qed

lemma doFft_signature_state: "same_signature_state st (doFft spectrum samples st)"
  by (simp add: doFft_def Let_def same_signature_state_def)

lemma processInput_at_start:
  assumes "rings_at_start st" and "samples \<noteq> []"
  shows "\<exists>st'. processInput spectrum samples st = (Some TypeError, st')
           \<and> spreadFftsOutput st' = spreadFftsOutput st
           \<and> nextSignature st' = (nextSignature st)\<lparr>numberSamples :=
                numberSamples (nextSignature st) + int (length samples)\<rparr>
           \<and> MAX_PEAKS st' = MAX_PEAKS st \<and> MAX_TIME_SECONDS st' = MAX_TIME_SECONDS st"
proof -
  let ?s0 = "st\<lparr>nextSignature := (nextSignature st)\<lparr>numberSamples :=
                numberSamples (nextSignature st) + int (length samples)\<rparr>\<rparr>"
  let ?s1 = "doFft spectrum (take 128 samples) ?s0"
  have s1: "same_signature_state ?s0 ?s1" by (rule doFft_signature_state)
  then have "position (spreadFftsOutput ?s1) < 6" "bufferSize (spreadFftsOutput ?s1) = 256"
    using assms(1) by (simp_all add: same_signature_state_def rings_at_start_def)
  then have "fst (doPeakSpreading ?s1) = Some TypeError"
    by (rule doPeakSpreading_raises)
  then obtain s2 where s2: "doPeakSpreading ?s1 = (Some TypeError, s2)"
    by (cases "doPeakSpreading ?s1") simp
  then have "same_signature_state ?s1 s2" by (rule doPeakSpreading_raises_state)
  with s1 have ss: "same_signature_state ?s0 s2" by (simp add: same_signature_state_def)
  have "doPeakSpreadingAndRecognition ?s1 = (Some TypeError, s2)"
    using s2 by (simp add: doPeakSpreadingAndRecognition_def)
  then have "process_chunks spectrum samples ?s0 = (Some TypeError, s2)"
    using assms(2) by (subst process_chunks.simps) simp
  then have "processInput spectrum samples st = (Some TypeError, s2)"
    by (simp add: processInput_def)
  with ss show ?thesis by (simp add: same_signature_state_def)
qed

lemma length_js_slice_block:
  assumes "0 \<le> s" and "int (length xs) - s \<ge> 128"
  shows "length (js_slice xs s (s + 128)) = 128"
proof -
  have k: "min s (int (length xs)) = s" and f: "min (s + 128) (int (length xs)) = s + 128"
    using assms by simp_all
  have "js_slice xs s (s + 128) = take 128 (drop (nat s) xs)"
    using assms(1) unfolding js_slice_def Let_def k f by simp
  moreover have "128 \<le> length xs - nat s" using assms by linarith
  ultimately show ?thesis by simp
qed

lemma total_peaks_empty: "frequencyBandToSoundPeaks sig = [] \<Longrightarrow> total_peaks sig = 0"
  by (simp add: total_peaks_def)

lemma getNextSignature_at_start:
  assumes "rings_at_start st"
    and "int (length (inputPendingProcessing st)) - samplesProcessed st \<ge> 128"
  shows "\<exists>st'. getNextSignature spectrum st = (Inl TypeError, st')
           \<and> rings_at_start st'
           \<and> inputPendingProcessing st' = inputPendingProcessing st
           \<and> samplesProcessed st' = samplesProcessed st
           \<and> MAX_TIME_SECONDS st' = MAX_TIME_SECONDS st
           \<and> nextSignature st' = (nextSignature st)\<lparr>numberSamples :=
                numberSamples (nextSignature st) + 128\<rparr>"
proof -
  let ?s = "js_slice (inputPendingProcessing st) (samplesProcessed st) (samplesProcessed st + 128)"
  have len: "length ?s = 128"
    using assms by (intro length_js_slice_block) (simp_all add: rings_at_start_def)
  then have ne: "?s \<noteq> []" by auto
  from processInput_at_start[OF assms(1) ne, of spectrum] len obtain st' where
    p: "processInput spectrum ?s st = (Some TypeError, st')"
    and f: "spreadFftsOutput st' = spreadFftsOutput st"
      "nextSignature st' = (nextSignature st)\<lparr>numberSamples :=
                numberSamples (nextSignature st) + 128\<rparr>"
      "MAX_PEAKS st' = MAX_PEAKS st" "MAX_TIME_SECONDS st' = MAX_TIME_SECONDS st"
    by auto
  have si: "same_input st st'" using processInput_same_input[of st spectrum ?s] p by simp
  have kp: "keep_processing st"
    using assms by (simp add: keep_processing_def rings_at_start_def total_peaks_empty)
  then have "signature_loop spectrum st = (Some TypeError, st')"
    using p by (subst signature_loop.simps) simp
  then have "getNextSignature spectrum st = (Inl TypeError, st')"
    using assms(2) by (simp add: getNextSignature_def)
  moreover have "rings_at_start st'"
    using assms(1) f si by (simp add: rings_at_start_def same_input_def)
  ultimately show ?thesis using f si by (simp add: same_input_def)
qed

lemma rings_at_start_new: "rings_at_start SignatureGenerator_new"
  by (simp add: rings_at_start_def SignatureGenerator_new_def reset_rings_def
      RingBuffer_new_def new_signature_def)

lemma rings_at_start_feedInput: "rings_at_start st \<Longrightarrow> rings_at_start (feedInput samples st)"
  by (simp add: rings_at_start_def feedInput_def)

lemma getNextSignature_at_start_cases:
  assumes "rings_at_start st"
  shows "(fst (getNextSignature spectrum st) = Inr None \<or> fst (getNextSignature spectrum st) = Inl TypeError)
         \<and> rings_at_start (snd (getNextSignature spectrum st))"
proof (cases "int (length (inputPendingProcessing st)) - samplesProcessed st \<ge> 128")
  case True
  from getNextSignature_at_start[OF assms True, of spectrum] show ?thesis by auto
next
  case False
  with assms show ?thesis by (simp add: getNextSignature_def)
qed

lemma run_at_start: "rings_at_start st \<Longrightarrow> rings_at_start (run spectrum cs st)"
proof (induction cs arbitrary: st)
  case Nil
  then show ?case by simp
next
  case (Cons c cs)
  show ?case
  proof (cases c)
    case (FeedInput samples)
    with Cons show ?thesis by (simp add: rings_at_start_feedInput)
  next
    case GetNextSignature
    with Cons getNextSignature_at_start_cases[of st spectrum] show ?thesis by simp
  qed
qed


text \<open>The counterexample to C6 as stated: scenario S1, 1024 zero samples fed to a new
  generator. The call does not return \<^verbatim>\<open>null\<close>.\<close>

theorem getNextSignature_1024_zeros:
  "fst (getNextSignature silence_spectrum (feedInput (replicate 1024 0) SignatureGenerator_new))
     \<noteq> Inr None"
proof -
  let ?st = "feedInput (replicate 1024 0) SignatureGenerator_new"
  have a: "rings_at_start ?st" by (simp add: rings_at_start_feedInput rings_at_start_new)
  have b: "int (length (inputPendingProcessing ?st)) - samplesProcessed ?st \<ge> 128"
    by (simp add: feedInput_def SignatureGenerator_new_def)
  from getNextSignature_at_start[OF a b, of silence_spectrum] show ?thesis by auto
qed



section \<open>When \<^verbatim>\<open>getNextSignature\<close> stops\<close>


lemma reset_rings_limits [simp]:
  "MAX_TIME_SECONDS (reset_rings st) = MAX_TIME_SECONDS st"
  "MAX_PEAKS (reset_rings st) = MAX_PEAKS st"
  by (simp_all add: reset_rings_def)



section \<open>A block that is processed\<close>
















section \<open>Peak recognition\<close>





text \<open>A generator whose rings hold 60 frames: both cursors at 60. The raw frame of 46
  passes back (slot 14 of \<open>fftOutputs\<close>) has power 1 in bin 40 and the clamp value
  \<open>1e-10\<close> in every other bin; the spread frames are all zero.\<close>

definition generator_with_peak :: SignatureGenerator where
  "generator_with_peak =
     SignatureGenerator_new
       \<lparr>fftOutputs := \<lparr>items = (replicate 256 4)[14 := 7], position = 60,
                       bufferSize = 256, numWritten = 60\<rparr>,
        spreadFftsOutput := \<lparr>items = replicate 256 5, position = 60,
                             bufferSize = 256, numWritten = 60\<rparr>,
        store := (\<lambda>r. if r = 7 then (replicate 2048 (Some (1 / 10 ^ 10)))[40 := Some 1]
                       else replicate 1025 (Some 0)),
        fresh := 8\<rparr>"

lemma generator_with_peak_fields:
  "fftOutputs generator_with_peak = \<lparr>items = (replicate 256 4)[14 := 7], position = 60,
                       bufferSize = 256, numWritten = 60\<rparr>"
  "spreadFftsOutput generator_with_peak = \<lparr>items = replicate 256 5, position = 60,
                             bufferSize = 256, numWritten = 60\<rparr>"
  "store generator_with_peak = (\<lambda>r. if r = 7 then (replicate 2048 (Some (1 / 10 ^ 10)))[40 := Some 1]
                       else replicate 1025 (Some 0))"
  "nextSignature generator_with_peak = new_signature"
  by (simp_all add: generator_with_peak_def SignatureGenerator_new_def reset_rings_def)

lemma magnitude_one: "magnitude (Some 1) = Some 6144"
  by (simp add: magnitude_def Math_max_def Math_log_def num_op_def)

lemma magnitude_floor: "magnitude (Some (1 / 10 ^ 10)) = Some (ln (1 / 64) * 1477.3 + 6144)"
  by (simp add: magnitude_def Math_max_def Math_log_def num_op_def max_def)

lemma ln_64th_negative: "ln (1 / 64 :: real) < 0"
  by (rule ln_less_zero) simp_all

lemma other_neighbours_example:
  "other_neighbours generator_with_peak 40 (Some 0) [- 53, - 45, 165, 201, 214, 250] = Inr (Some 0)"
  by (simp add: other_neighbours.simps generator_with_peak_fields ring_at_def js_rem_def
      aget_def Math_max_def)

lemma peak_at_reaches_emission:
  assumes "ring_at (fftOutputs st) (js_rem (int (position (fftOutputs st)) - 46)
                (int (bufferSize (fftOutputs st)))) = Some r46"
    and "ring_at (spreadFftsOutput st) (js_rem (int (position (spreadFftsOutput st)) - 49)
                (int (bufferSize (spreadFftsOutput st)))) = Some r49"
    and "num_ge (aget (store st r46) i) (Some (1 / 64))"
    and "num_ge (aget (store st r46) i) (aget (store st r49) (i - 1))"
    and "foldl (\<lambda>m offset. Math_max (aget (store st r49) (nat (int i + offset))) m) (Some 0)
              [- 10, - 3, 1, 2, 5, 8] = m49"
    and "num_gt (aget (store st r46) i) m49"
    and "other_neighbours st i m49 [- 53, - 45, 165, 201, 214, 250] = Inr mo"
    and "num_gt (aget (store st r46) i) mo"
    and "magnitude (aget (store st r46) i) = pm"
    and "magnitude (aget (store st r46) (i - 1)) = pb"
    and "magnitude (aget (store st r46) (i + 1)) = pa"
    and "num_op (-) (num_op (-) (num_op (*) pm (Some 2)) pb) pa = v1"
    and "num_gt v1 (Some 0)"
    and "num_op (+) (Some (real i * 64)) (num_div (num_op (*) (num_op (-) pa pb) (Some 32)) v1) = cb"
    and "peak_band (num_op (*) cb (Some (16000 / 2 / 1024 / 64))) = Some band"
  shows "peak_at st i = Inr (Some (int (numWritten (spreadFftsOutput st)) - 46, pm, cb, band))"
  unfolding peak_at_def Let_def using assms by simp

lemma peak_at_example:
  "peak_at generator_with_peak 40 = Inr (Some (14, Some 6144, Some 2560, 0))"
proof -
  let ?g = generator_with_peak
  let ?L = "ln (1 / 64 :: real) * 1477.3 + 6144"
  let ?v = "- 2 * 1477.3 * ln (1 / 64 :: real)"
  have f46: "ring_at (fftOutputs ?g) (js_rem (int (position (fftOutputs ?g)) - 46)
                (int (bufferSize (fftOutputs ?g)))) = Some 7"
    by (simp add: generator_with_peak_fields ring_at_def js_rem_def)
  have f49: "ring_at (spreadFftsOutput ?g) (js_rem (int (position (spreadFftsOutput ?g)) - 49)
                (int (bufferSize (spreadFftsOutput ?g)))) = Some 5"
    by (simp add: generator_with_peak_fields ring_at_def js_rem_def)
  have a: "aget (store ?g 7) 40 = Some 1"
    "aget (store ?g 7) (40 - 1) = Some (1 / 10 ^ 10)"
    "aget (store ?g 7) (40 + 1) = Some (1 / 10 ^ 10)"
    by (simp_all add: generator_with_peak_fields aget_def)
  have z: "\<And>k. k < 1025 \<Longrightarrow> aget (store ?g 5) k = Some 0"
    by (simp add: generator_with_peak_fields aget_def)
  have m49: "foldl (\<lambda>m offset. Math_max (aget (store ?g 5) (nat (int 40 + offset))) m)
               (Some 0) [- 10, - 3, 1, 2, 5, 8] = Some 0"
    by (simp add: generator_with_peak_fields aget_def Math_max_def)
  have v1: "num_op (-) (num_op (-) (num_op (*) (Some 6144) (Some 2)) (Some ?L)) (Some ?L) = Some ?v"
    by (simp add: num_op_def algebra_simps)
  have v1pos: "0 < ?v"
    using ln_64th_negative by (simp add: mult_neg_neg)
  have v2: "num_op (+) (Some (real 40 * 64))
              (num_div (num_op (*) (num_op (-) (Some ?L) (Some ?L)) (Some 32)) (Some ?v))
            = Some 2560"
    using v1pos by (simp add: num_div_def num_op_def)
  have band: "peak_band (num_op (*) (Some 2560) (Some (16000 / 2 / 1024 / 64))) = Some 0"
    by (simp add: peak_band_def num_op_def num_ge_def num_gt_def num_lt_def)
  have nw: "int (numWritten (spreadFftsOutput ?g)) - 46 = 14"
    by (simp add: generator_with_peak_fields)
  have "peak_at ?g 40 = Inr (Some (int (numWritten (spreadFftsOutput ?g)) - 46,
            Some 6144, Some 2560, 0))"
  proof (rule peak_at_reaches_emission[OF f46 f49 _ _ m49 _ other_neighbours_example _ _ _ _ v1 _ v2 band])
    show "num_ge (aget (store ?g 7) 40) (Some (1 / 64))" by (simp add: a num_ge_def)
    show "num_ge (aget (store ?g 7) 40) (aget (store ?g 5) (40 - 1))"
      by (simp add: a z num_ge_def)
    show "num_gt (aget (store ?g 7) 40) (Some 0)" by (simp add: a num_gt_def)
    show "num_gt (aget (store ?g 7) 40) (Some 0)" by (simp add: a num_gt_def)
    show "magnitude (aget (store ?g 7) 40) = Some 6144" by (simp add: a magnitude_one)
    show "magnitude (aget (store ?g 7) (40 - 1)) = Some ?L" by (simp only: a magnitude_floor)
    show "magnitude (aget (store ?g 7) (40 + 1)) = Some ?L" by (simp only: a magnitude_floor)
    show "num_gt (Some ?v) (Some 0)" using v1pos by (simp add: num_gt_def)
  qed
  then show ?thesis unfolding nw .
qed

lemma foldl_peak_count:
  "foldl (\<lambda>acc peaks. acc + int (length peaks)) a xs = a + sum_list (map (\<lambda>p. int (length p)) xs)"
  by (induction xs arbitrary: a) simp_all

lemma total_peaks_sum:
  "total_peaks sig = sum_list (map (\<lambda>kv. int (length (snd kv))) (frequencyBandToSoundPeaks sig))"
  by (simp add: total_peaks_def foldl_peak_count comp_def)

lemma obj_insert_index_count:
  "sum_list (map (\<lambda>kv. int (length (snd kv))) (obj_insert_index m n v))
   = int (length v) + sum_list (map (\<lambda>kv. int (length (snd kv))) m)"
  by (induction m n v rule: obj_insert_index.induct) simp_all

lemma obj_set_empty_count:
  "obj_get m k = None \<Longrightarrow>
   sum_list (map (\<lambda>kv. int (length (snd kv))) (obj_set m k []))
   = sum_list (map (\<lambda>kv. int (length (snd kv))) m)"
  by (cases k) (simp_all add: obj_set_def obj_insert_index_count)

lemma emit_peak_adds_nothing:
  "total_peaks (nextSignature (snd (emit_peak st n m c b))) = total_peaks (nextSignature st)"
  by (simp add: emit_peak_def Let_def total_peaks_sum obj_set_empty_count)

lemma emit_peak_raises: "fst (emit_peak st n m c b) = Some ReferenceError"
  by (simp add: emit_peak_def Let_def)

lemma recognition_loop_adds_nothing:
  "total_peaks (nextSignature (snd (recognition_loop st i))) = total_peaks (nextSignature st)"
proof (induction st i rule: recognition_loop.induct)
  case (1 st i)
  show ?case
  proof (cases "i < 1015")
    case False
    then show ?thesis by (simp add: recognition_loop.simps)
  next
    case True
    show ?thesis
    proof (cases "peak_at st i")
      case (Inl e)
      with True show ?thesis by (subst recognition_loop.simps) simp
    next
      case (Inr p)
      show ?thesis
      proof (cases p)
        case None
        with True Inr "1.IH"(1) show ?thesis by (subst recognition_loop.simps) simp
      next
        case (Some q)
        obtain n m c b where q: "q = (n, m, c, b)" by (cases q)
        obtain st' where e: "emit_peak st n m c b = (Some ReferenceError, st')"
          using emit_peak_raises[of st n m c b] by (cases "emit_peak st n m c b") simp
        then have "total_peaks (nextSignature st') = total_peaks (nextSignature st)"
          using emit_peak_adds_nothing[of st n m c b] by simp
        with True Inr Some q e show ?thesis
          by (subst recognition_loop.simps) simp
      qed
    qed
  qed
qed

lemma recognition_loop_skips:
  assumes "\<forall>k. j \<le> k \<and> k < i \<longrightarrow> peak_at st k = Inr None" and "i < 1015"
  shows "j \<le> i \<Longrightarrow> recognition_loop st j = recognition_loop st i"
  using assms(1)
proof (induction "i - j" arbitrary: j)
  case 0
  then show ?case by simp
next
  case (Suc d)
  then have lt: "j < i" by simp
  then have "peak_at st j = Inr None" using Suc.prems(2) by simp
  then have "recognition_loop st j = recognition_loop st (j + 1)"
    using lt assms(2) by (subst recognition_loop.simps) simp
  moreover have "recognition_loop st (j + 1) = recognition_loop st i"
    using Suc.hyps(2) lt Suc.prems(2) by (intro Suc.hyps(1)) simp_all
  ultimately show ?case by simp
qed


text \<open>
  C3 (fields of an emitted peak). The claim describes the \<^verbatim>\<open>FrequencyPeak\<close> that line 413
  is meant to push: pass number \<^verbatim>\<open>numWritten - 46\<close>, floor of the local magnitude, floor
  of the local corrected bin. The code does not push it. Line 413 names
  \<^verbatim>\<open>peak_magnitude\<close> and \<^verbatim>\<open>corrected_peak_frequency_bin\<close> where the locals are
  \<^verbatim>\<open>peakMagnitude\<close> and \<^verbatim>\<open>correctedPeakFrequencyBin\<close>: at the first bin that passes every
  test of lines 377-406, \<^verbatim>\<open>doPeakRecognition\<close> throws a \<^verbatim>\<open>ReferenceError\<close>, and the
  signature holds as many peaks as before.
\<close>

theorem peak_emission_raises:
  assumes "10 \<le> i" and "i < 1015"
    and "peak_at st i = Inr (Some (fftNumber, mag, cbin, band))"
    and "\<forall>j. 10 \<le> j \<and> j < i \<longrightarrow> peak_at st j = Inr None"
  shows "fst (doPeakRecognition st) = Some ReferenceError
         \<and> total_peaks (nextSignature (snd (doPeakRecognition st))) = total_peaks (nextSignature st)"
proof -
  have "recognition_loop st 10 = recognition_loop st i"
    using assms(4,2,1) by (rule recognition_loop_skips)
  moreover obtain st' where "emit_peak st fftNumber mag cbin band = (Some ReferenceError, st')"
    using emit_peak_raises[of st fftNumber mag cbin band]
    by (cases "emit_peak st fftNumber mag cbin band") simp
  then have "recognition_loop st i = (Some ReferenceError, st')"
    using assms(2,3) by (subst recognition_loop.simps) simp
  ultimately have "fst (doPeakRecognition st) = Some ReferenceError"
    by (simp add: doPeakRecognition_def)
  then show ?thesis
    using recognition_loop_adds_nothing[of st 10] by (simp add: doPeakRecognition_def)
qed


lemma peak_at_example_elsewhere:
  assumes "j \<noteq> 40"
  shows "peak_at generator_with_peak j = Inr None"
proof -
  have f46: "ring_at (fftOutputs generator_with_peak)
               (js_rem (int (position (fftOutputs generator_with_peak)) - 46)
                (int (bufferSize (fftOutputs generator_with_peak)))) = Some 7"
    by (simp add: generator_with_peak_fields ring_at_def js_rem_def)
  have "\<not> num_ge (aget (store generator_with_peak 7) j) (Some (1 / 64))"
    using assms by (simp add: generator_with_peak_fields aget_def num_ge_def)
  then show ?thesis
    unfolding peak_at_def Let_def f46 by simp
qed


text \<open>The failing input of C3: \<open>generator_with_peak\<close>, where bin 40 is the first and only
  peak (pass 14, magnitude 6144, corrected bin 2560, 312.5 Hz, band 250-520 Hz).\<close>

theorem peak_emission_raises_witness:
  "peak_at generator_with_peak 40 = Inr (Some (14, Some 6144, Some 2560, 0))
   \<and> fst (doPeakRecognition generator_with_peak) = Some ReferenceError
   \<and> total_peaks (nextSignature (snd (doPeakRecognition generator_with_peak))) = 0"
proof -
  have a: "\<forall>j. 10 \<le> j \<and> j < 40 \<longrightarrow> peak_at generator_with_peak j = Inr None"
    by (simp add: peak_at_example_elsewhere)
  have t: "total_peaks (nextSignature generator_with_peak) = 0"
    by (simp add: generator_with_peak_fields new_signature_def total_peaks_def)
  show ?thesis
    using peak_at_example peak_emission_raises[OF _ _ peak_at_example a] t by simp
qed




section \<open>Two generators\<close>


text \<open>The constructor run in a store that already holds \<open>k\<close> arrays (those of other
  generators, say): the new rings get the references \<open>k\<close> and \<open>k + 1\<close>.
  \<open>SignatureGenerator_new\<close> is the case of an empty store.\<close>

definition SignatureGenerator_at :: "nat \<Rightarrow> (nat \<Rightarrow> num list) \<Rightarrow> SignatureGenerator" where
  "SignatureGenerator_at k heap =
     reset_rings
       \<lparr>inputPendingProcessing = [], samplesProcessed = 0,
        ringBufferOfSamples = RingBuffer_new 2048 0,
        fftOutputs = RingBuffer_new 256 0, spreadFftsOutput = RingBuffer_new 256 0,
        MAX_TIME_SECONDS = Some 3.1, MAX_PEAKS = 255,
        nextSignature = new_signature, store = heap, fresh = k\<rparr>"

lemma SignatureGenerator_new_at: "SignatureGenerator_new = SignatureGenerator_at 0 (\<lambda>r. [])"
  by (simp add: SignatureGenerator_new_def SignatureGenerator_at_def)








end
